theory Spec2Isabelle
  imports Complex_Main
begin

section \<open>Variables, storage metadata and variable assignments\<close>

text \<open>
  A variable class (\<open>type(variable)\<close> in the source) carries the class-level methods
  \<open>get_parameter_dim\<close> and \<open>get_local_parameter_dim\<close>. \<open>type_id\<close> is the identity of
  the class object and \<open>base_ids\<close> the identities of its proper ancestors, which is what
  Python's \<open>isinstance\<close> consults.
\<close>

record variable_type =
  type_id :: nat
  base_ids :: "nat list"
  get_parameter_dim :: nat
  get_local_parameter_dim :: nat

text \<open>
  A variable instance holds no value. It is a dictionary key, hashed and compared by
  object identity (\<open>var_id\<close>).
\<close>

record VariableBase =
  var_id :: nat
  var_type :: variable_type

definition isinstance :: "VariableBase \<Rightarrow> variable_type \<Rightarrow> bool" where
  "isinstance v T \<longleftrightarrow>
     type_id T = type_id (var_type v) \<or> type_id T \<in> set (base_ids (var_type v))"

record StorageMetadata =
  index_from_variable :: "VariableBase \<rightharpoonup> int"

record VariableAssignments =
  storage :: "real list"
  storage_metadata :: StorageMetadata


section \<open>The Levenberg-Marquardt solver\<close>

text \<open>
  Scalars (\<open>hints.Scalar\<close>) are modelled as real numbers: the properties below are about
  which value is selected, not about rounding. \<open>iterations\<close> is a Python integer.
  The field \<open>done\<close> of the source is called \<open>done_flag\<close> here.
\<close>

record NonlinearSolverState =
  iterations :: int
  assignments :: VariableAssignments
  cost :: real
  residual_vector :: "real list"
  done_flag :: bool

record LevenbergMarquardtState = NonlinearSolverState +
  lambd :: real

text \<open>
  The graph (\<open>StackedFactorGraph\<close>) is consumed through three members. The type \<open>'A\<close>
  is the sparse matrix type returned by the linearisation.
\<close>

record 'A StackedFactorGraph =
  compute_cost :: "VariableAssignments \<Rightarrow> real \<times> real list"
  compute_whitened_residual_jacobian :: "VariableAssignments \<Rightarrow> real list \<Rightarrow> 'A"
  local_storage_metadata :: StorageMetadata

text \<open>
  The solver: its four damping fields, and the members it inherits from the
  termination-criteria and trust-region mixins and from its linear solver, which are
  defined outside the files at hand and are therefore fields of the record.
  \<open>transpose_matvec A v\<close> is \<open>A.T @ v\<close> and \<open>manifold_retract\<close> is the method of
  \<open>VariableAssignments\<close>.
\<close>

record 'A LevenbergMarquardtSolver =
  lambda_initial :: real
  lambda_factor :: real
  lambda_min :: real
  lambda_max :: real
  step_quality_min :: real
  compute_step_quality :: "'A \<Rightarrow> real \<Rightarrow> LevenbergMarquardtState \<Rightarrow> real list \<Rightarrow> real"
  check_exceeded_max_iterations :: "LevenbergMarquardtState \<Rightarrow> bool"
  check_convergence ::
    "LevenbergMarquardtState \<Rightarrow> real \<Rightarrow> VariableAssignments \<Rightarrow> real list \<Rightarrow> bool"
  solve_subproblem :: "'A \<Rightarrow> real list \<Rightarrow> real \<Rightarrow> int \<Rightarrow> real list"
  transpose_matvec :: "'A \<Rightarrow> real list \<Rightarrow> real list"
  manifold_retract :: "VariableAssignments \<Rightarrow> VariableAssignments \<Rightarrow> VariableAssignments"

text \<open>\<open>jnp.where\<close> with a scalar condition and two operands of one shape.\<close>

definition jnp_where :: "bool \<Rightarrow> 'a \<Rightarrow> 'a \<Rightarrow> 'a" where
  "jnp_where c a b = (if c then a else b)"

definition initialize_state ::
  "'A LevenbergMarquardtSolver \<Rightarrow> 'A StackedFactorGraph \<Rightarrow> VariableAssignments
     \<Rightarrow> LevenbergMarquardtState" where
  "initialize_state self graph initial_assignments =
     (let (cost0, residual_vector0) = compute_cost graph initial_assignments
      in \<lparr>iterations = 0,
          assignments = initial_assignments,
          cost = cost0,
          residual_vector = residual_vector0,
          done_flag = False,
          lambd = lambda_initial self\<rparr>)"

text \<open>
  The intermediate values of \<open>_step\<close>, one definition per local variable of the source,
  in the source's order. The call of \<open>_hcb_print\<close> only prints and is left out.
\<close>

definition step_A :: "'A StackedFactorGraph \<Rightarrow> LevenbergMarquardtState \<Rightarrow> 'A" where
  "step_A graph state_prev =
     compute_whitened_residual_jacobian graph (assignments state_prev)
       (residual_vector state_prev)"

definition step_ATb ::
  "'A LevenbergMarquardtSolver \<Rightarrow> 'A StackedFactorGraph \<Rightarrow> LevenbergMarquardtState
     \<Rightarrow> real list" where
  "step_ATb self graph state_prev =
     transpose_matvec self (step_A graph state_prev)
       (map uminus (residual_vector state_prev))"

definition step_vector ::
  "'A LevenbergMarquardtSolver \<Rightarrow> 'A StackedFactorGraph \<Rightarrow> LevenbergMarquardtState
     \<Rightarrow> real list" where
  "step_vector self graph state_prev =
     solve_subproblem self (step_A graph state_prev) (step_ATb self graph state_prev)
       (lambd state_prev) (iterations state_prev)"

definition local_delta_assignments ::
  "'A LevenbergMarquardtSolver \<Rightarrow> 'A StackedFactorGraph \<Rightarrow> LevenbergMarquardtState
     \<Rightarrow> VariableAssignments" where
  "local_delta_assignments self graph state_prev =
     \<lparr>storage = step_vector self graph state_prev,
      storage_metadata = local_storage_metadata graph\<rparr>"

definition assignments_proposed ::
  "'A LevenbergMarquardtSolver \<Rightarrow> 'A StackedFactorGraph \<Rightarrow> LevenbergMarquardtState
     \<Rightarrow> VariableAssignments" where
  "assignments_proposed self graph state_prev =
     manifold_retract self (assignments state_prev)
       (local_delta_assignments self graph state_prev)"

definition proposed_cost ::
  "'A LevenbergMarquardtSolver \<Rightarrow> 'A StackedFactorGraph \<Rightarrow> LevenbergMarquardtState
     \<Rightarrow> real" where
  "proposed_cost self graph state_prev =
     fst (compute_cost graph (assignments_proposed self graph state_prev))"

definition proposed_residual_vector ::
  "'A LevenbergMarquardtSolver \<Rightarrow> 'A StackedFactorGraph \<Rightarrow> LevenbergMarquardtState
     \<Rightarrow> real list" where
  "proposed_residual_vector self graph state_prev =
     snd (compute_cost graph (assignments_proposed self graph state_prev))"

definition step_quality ::
  "'A LevenbergMarquardtSolver \<Rightarrow> 'A StackedFactorGraph \<Rightarrow> LevenbergMarquardtState
     \<Rightarrow> real" where
  "step_quality self graph state_prev =
     compute_step_quality self (step_A graph state_prev)
       (proposed_cost self graph state_prev) state_prev (step_vector self graph state_prev)"

definition accept_flag ::
  "'A LevenbergMarquardtSolver \<Rightarrow> 'A StackedFactorGraph \<Rightarrow> LevenbergMarquardtState
     \<Rightarrow> bool" where
  "accept_flag self graph state_prev \<longleftrightarrow>
     step_quality self graph state_prev \<ge> step_quality_min self"

definition step ::
  "'A LevenbergMarquardtSolver \<Rightarrow> 'A StackedFactorGraph \<Rightarrow> LevenbergMarquardtState
     \<Rightarrow> LevenbergMarquardtState" where
  "step self graph state_prev =
     (let accept = accept_flag self graph state_prev;
          lambd' = jnp_where accept
                     (lambd state_prev / lambda_factor self)
                     (max (lambda_min self)
                        (min (lambd state_prev * lambda_factor self) (lambda_max self)));
          assignments' = (assignments state_prev)
                     \<lparr>storage := jnp_where accept
                          (storage (assignments_proposed self graph state_prev))
                          (storage (assignments state_prev))\<rparr>;
          done' = (check_exceeded_max_iterations self state_prev
                   \<or> (accept
                      \<and> check_convergence self state_prev
                          (proposed_cost self graph state_prev)
                          (local_delta_assignments self graph state_prev)
                          (step_ATb self graph state_prev)))
      in \<lparr>iterations = iterations state_prev + 1,
          assignments = assignments',
          cost = jnp_where accept (proposed_cost self graph state_prev) (cost state_prev),
          residual_vector = proposed_residual_vector self graph state_prev,
          done_flag = done',
          lambd = lambd'\<rparr>)"


subsection \<open>A one-variable problem with a cubic residual\<close>

text \<open>
  The instance used to run the solver: one scalar Euclidean variable \<open>x\<close> with the
  residual \<open>x\<^sup>3 - 2x + 2\<close>, the cost the sum of squared residuals, a dense Jacobian
  (one row per residual), the exact solution of the damped normal equations
  \<open>(A\<^sup>T A + \<lambda>) \<delta> = A\<^sup>T b\<close>, and retraction by addition.
\<close>

definition dense_matvec :: "real list list \<Rightarrow> real list \<Rightarrow> real list" where
  "dense_matvec A v = map (\<lambda>row. sum_list (map2 (*) row v)) A"

definition dense_transpose_matvec :: "real list list \<Rightarrow> real list \<Rightarrow> real list" where
  "dense_transpose_matvec A v = dense_matvec (transpose A) v"

definition dot :: "real list \<Rightarrow> real list \<Rightarrow> real" where
  "dot xs ys = sum_list (map2 (*) xs ys)"

text \<open>
  Modelled from the spec: \<open>compute_step_quality\<close> of the trust-region mixin, which is
  not among the source files. The gain ratio is the actual cost reduction divided by
  the reduction predicted by the linear model from \<open>A\<close>, \<open>ATb\<close> and \<open>\<delta>\<close>, which is
  \<open>2 \<delta>\<cdot>ATb - |A \<delta>|\<^sup>2\<close> with \<open>ATb = A\<^sup>T (-r)\<close> for the residual vector \<open>r\<close> of the
  previous state.
\<close>

definition predicted_reduction ::
  "real list list \<Rightarrow> LevenbergMarquardtState \<Rightarrow> real list \<Rightarrow> real" where
  "predicted_reduction A state_prev delta =
     2 * dot delta (dense_transpose_matvec A (map uminus (residual_vector state_prev)))
       - dot (dense_matvec A delta) (dense_matvec A delta)"

definition gain_ratio ::
  "real list list \<Rightarrow> real \<Rightarrow> LevenbergMarquardtState \<Rightarrow> real list \<Rightarrow> real" where
  "gain_ratio A proposed state_prev delta =
     (cost state_prev - proposed) / predicted_reduction A state_prev delta"

definition cubic_residual :: "real \<Rightarrow> real" where
  "cubic_residual x = x * x * x - 2 * x + 2"

definition cubic_graph :: "(real list list) StackedFactorGraph" where
  "cubic_graph =
     \<lparr>compute_cost = (\<lambda>a. let r = map cubic_residual (storage a)
                            in (sum_list (map (\<lambda>x. x * x) r), r)),
      compute_whitened_residual_jacobian =
        (\<lambda>a r. map (\<lambda>x. [3 * x * x - 2]) (storage a)),
      local_storage_metadata = \<lparr>index_from_variable = Map.empty\<rparr>\<rparr>"

definition cubic_solver :: "(real list list) LevenbergMarquardtSolver" where
  "cubic_solver =
     \<lparr>lambda_initial = 1 / 2,
      lambda_factor = 2,
      lambda_min = 1 / 100000,
      lambda_max = 10000000000,
      step_quality_min = 1 / 1000,
      compute_step_quality = gain_ratio,
      check_exceeded_max_iterations = (\<lambda>s. iterations s \<ge> 100 - 1),
      check_convergence = (\<lambda>s c d g. \<bar>c - cost s\<bar> < cost s / 100000),
      solve_subproblem = (\<lambda>A ATb l i.
         map2 (\<lambda>row g. g / (sum_list (map (\<lambda>x. x * x) row) + l)) A ATb),
      transpose_matvec = dense_transpose_matvec,
      manifold_retract = (\<lambda>a d. a\<lparr>storage := map2 (+) (storage a) (storage d)\<rparr>)\<rparr>"

definition cubic_start :: VariableAssignments where
  "cubic_start = \<lparr>storage = [-1], storage_metadata = \<lparr>index_from_variable = Map.empty\<rparr>\<rparr>"

definition cubic_state0 :: LevenbergMarquardtState where
  "cubic_state0 = initialize_state cubic_solver cubic_graph cubic_start"

definition cubic_state1 :: LevenbergMarquardtState where
  "cubic_state1 = step cubic_solver cubic_graph cubic_state0"

text \<open>The same problem started at \<open>x = 2\<close>, where the first step is accepted.\<close>

definition cubic_start2 :: VariableAssignments where
  "cubic_start2 = \<lparr>storage = [2], storage_metadata = \<lparr>index_from_variable = Map.empty\<rparr>\<rparr>"

definition cubic_state0' :: LevenbergMarquardtState where
  "cubic_state0' = initialize_state cubic_solver cubic_graph cubic_start2"

text \<open>
  A linear solver that returns a best-effort step instead of the solution of the damped
  normal equations: three times the negative gradient \<open>ATb\<close>, a descent direction taken
  too far.
\<close>

definition overshoot_solver :: "(real list list) LevenbergMarquardtSolver" where
  "overshoot_solver =
     cubic_solver\<lparr>solve_subproblem := (\<lambda>A ATb l i. map (\<lambda>g. 3 * g) ATb)\<rparr>"



section \<open>Factor stacks\<close>

text \<open>
  Failures of the construction functions, one constructor per way the Python can
  raise: \<open>EmptyBatch\<close> is the \<open>TypeError\<close> of \<open>jax.tree_map\<close> called without a tree,
  \<open>TreeStructureMismatch\<close> its \<open>ValueError\<close> for trees of different structure,
  \<open>ShapeMismatch\<close> the \<open>ValueError\<close> of \<open>stack\<close>, \<open>onp.array\<close> and \<open>onp.broadcast_to\<close> on
  arrays whose shapes do not fit, \<open>VariableTypeMismatch\<close> the failed assertion
  "Variable types of stacked factors must match", \<open>FieldCountMismatch\<close> the failed
  assertion of \<open>__post_init__\<close>, and \<open>KeyError\<close> and \<open>IndexError\<close> the exceptions of
  dictionary and sequence lookups.
\<close>

datatype error =
    EmptyBatch
  | TreeStructureMismatch
  | ShapeMismatch
  | VariableTypeMismatch
  | FieldCountMismatch
  | KeyError
  | IndexError

text \<open>An array of reals of any rank, and its shape.\<close>

datatype ndarray = Scalar real | Array "ndarray list"

fun shape :: "ndarray \<Rightarrow> nat list" where
  "shape (Scalar x) = []"
| "shape (Array []) = [0]"
| "shape (Array (a # as)) = Suc (length as) # shape a"

text \<open>
  A factor: the identity of its class, its operands, its numeric fields (the array
  leaves of its pytree) and the value of its method \<open>get_residual_dim\<close>.
\<close>

record FactorBase =
  factor_type :: nat
  variables :: "VariableBase list"
  leaves :: "ndarray list"
  get_residual_dim :: nat

record SparseCooCoordinates =
  rows :: "int list"
  cols :: "int list"

text \<open>Running a list of fallible computations: the first failure is the result.\<close>

fun sequence_err :: "('e + 'a) list \<Rightarrow> 'e + 'a list" where
  "sequence_err [] = Inr []"
| "sequence_err (x # xs) =
     (case x of
        Inl e \<Rightarrow> Inl e
      | Inr y \<Rightarrow> (case sequence_err xs of Inl e \<Rightarrow> Inl e | Inr ys \<Rightarrow> Inr (y # ys)))"

fun fold_err :: "('a \<Rightarrow> 's \<Rightarrow> 'e + 's) \<Rightarrow> 'a list \<Rightarrow> 's \<Rightarrow> 'e + 's" where
  "fold_err f [] s = Inr s"
| "fold_err f (x # xs) s =
     (case f x s of Inl e \<Rightarrow> Inl e | Inr s' \<Rightarrow> fold_err f xs s')"

text \<open>\<open>onp.arange(start, stop)\<close> on integers.\<close>

definition arange :: "int \<Rightarrow> int \<Rightarrow> int list" where
  "arange start stop = [start..stop - 1]"

text \<open>
  \<open>onp.array\<close> of a list of one-dimensional index arrays: a two-dimensional array, for
  which the rows must have one length.
\<close>

definition onp_array :: "int list list \<Rightarrow> error + int list list" where
  "onp_array indices =
     (case indices of
        [] \<Rightarrow> Inr []
      | r # rs \<Rightarrow> if list_all (\<lambda>r'. length r' = length r) rs then Inr indices
                  else Inl ShapeMismatch)"

subsection \<open>\<open>compute_jacobian_coords\<close>\<close>

text \<open>
  The body of the double loop over factors and operands: look the operand up in the
  local storage metadata and append its range of local indices to the list of its slot.
\<close>

definition coords_visit ::
  "StorageMetadata \<Rightarrow> nat \<times> VariableBase \<Rightarrow> int list list list
     \<Rightarrow> error + int list list list" where
  "coords_visit lmd iv local_value_indices_list =
     (case iv of (i, variable) \<Rightarrow>
        (case index_from_variable lmd variable of
           None \<Rightarrow> Inl KeyError
         | Some storage_pos \<Rightarrow>
             if \<not> i < length local_value_indices_list then Inl IndexError
             else Inr (local_value_indices_list
                    [i := local_value_indices_list ! i
                       @ [arange storage_pos
                            (storage_pos
                             + int (get_local_parameter_dim (var_type variable)))]])))"

definition coords_loop ::
  "FactorBase list \<Rightarrow> StorageMetadata \<Rightarrow> int list list list \<Rightarrow> error + int list list list" where
  "coords_loop factors lmd local_value_indices_list =
     fold_err (\<lambda>f. fold_err (coords_visit lmd) (enumerate 0 (variables f)))
       factors local_value_indices_list"

text \<open>\<open>xs.reshape((n, r))\<close> of a one-dimensional array of length \<open>n * r\<close>.\<close>

definition reshape2 :: "nat \<Rightarrow> nat \<Rightarrow> int list \<Rightarrow> int list list" where
  "reshape2 n r xs = map (\<lambda>i. take r (drop (i * r) xs)) [0..<n]"

text \<open>
  \<open>onp.broadcast_to(a[:, :, None], (n, r, v))\<close> for \<open>a\<close> of shape \<open>(n, r)\<close>: every entry
  is repeated \<open>v\<close> times along the new last axis.
\<close>

definition broadcast_rows :: "nat \<Rightarrow> int list list \<Rightarrow> int list list list" where
  "broadcast_rows v a = map (map (replicate v)) a"

text \<open>
  \<open>onp.broadcast_to(a[:, None, :], (n, r, v))\<close> for a two-dimensional \<open>a\<close>: the first
  and the last axis of \<open>a\<close> must have the requested length or length one, and the rows
  are repeated \<open>r\<close> times along the new middle axis.
\<close>

definition broadcast_cols ::
  "nat \<Rightarrow> nat \<Rightarrow> nat \<Rightarrow> int list list \<Rightarrow> error + int list list list" where
  "broadcast_cols n r v a =
     (case a of
        [] \<Rightarrow> Inl IndexError
      | a0 # _ \<Rightarrow>
          if (length a = n \<or> length a = 1) \<and> (length a0 = v \<or> length a0 = 1)
          then Inr (map (\<lambda>i. replicate r
                          (map (\<lambda>k. a ! (if length a = 1 then 0 else i)
                                       ! (if length a0 = 1 then 0 else k)) [0..<v]))
                      [0..<n])
          else Inl ShapeMismatch)"

text \<open>
  \<open>onp.stack((r3, c3), axis=-1).reshape((n * r * v, 2))\<close>: the pairs of corresponding
  entries, in row-major order.
\<close>

definition stack_last_reshape ::
  "int list list list \<Rightarrow> int list list list \<Rightarrow> (int \<times> int) list" where
  "stack_last_reshape r3 c3 = concat (concat (map2 (map2 zip) r3 c3))"

text \<open>The body of the loop over the operand slots.\<close>

definition slot_coords ::
  "nat \<Rightarrow> nat \<Rightarrow> int \<Rightarrow> int list list \<Rightarrow> variable_type \<Rightarrow> int list list
     \<Rightarrow> error + SparseCooCoordinates" where
  "slot_coords n residual_dim row_offset residual_indices variable_type local_indices =
     (let variable_dim = get_local_parameter_dim variable_type;
          row3 = map (map (map (\<lambda>x. x + row_offset)))
                   (broadcast_rows variable_dim residual_indices)
      in case broadcast_cols n residual_dim variable_dim local_indices of
           Inl e \<Rightarrow> Inl e
         | Inr col3 \<Rightarrow>
             (let coords = stack_last_reshape row3 col3
              in Inr \<lparr>rows = map fst coords, cols = map snd coords\<rparr>))"

definition compute_jacobian_coords ::
  "FactorBase list \<Rightarrow> StorageMetadata \<Rightarrow> int \<Rightarrow> error + SparseCooCoordinates list" where
  "compute_jacobian_coords factors lmd row_offset =
     (case factors of
        [] \<Rightarrow> Inl IndexError
      | factor0 # _ \<Rightarrow>
          (let variable_types = map var_type (variables factor0)
           in case coords_loop factors lmd (replicate (length variable_types) []) of
                Inl e \<Rightarrow> Inl e
              | Inr local_value_indices_list \<Rightarrow>
                  (case sequence_err (map onp_array local_value_indices_list) of
                     Inl e \<Rightarrow> Inl e
                   | Inr local_value_indices_stacked \<Rightarrow>
                       (let n = length factors;
                            residual_dim = get_residual_dim factor0;
                            residual_indices =
                              reshape2 n residual_dim (arange 0 (int (n * residual_dim)))
                        in sequence_err
                             (map (\<lambda>(variable_index, variable_type).
                                     slot_coords n residual_dim row_offset residual_indices
                                       variable_type
                                       (local_value_indices_stacked ! variable_index))
                                (enumerate 0 variable_types))))))"

text \<open>
  The layout as the specification words it, for operand slot \<open>s\<close>: for every factor \<open>i\<close>
  of the batch in order, the cross product of its residual rows
  \<open>[row_offset + i * residual_dim, row_offset + (i + 1) * residual_dim)\<close> with the
  \<open>local_dim\<close> tangent indices that start at the local offset of its operand, rows
  before columns.
\<close>

definition spec_jacobian_pairs ::
  "FactorBase list \<Rightarrow> StorageMetadata \<Rightarrow> int \<Rightarrow> nat \<Rightarrow> (int \<times> int) list" where
  "spec_jacobian_pairs factors lmd row_offset s =
     (let residual_dim = int (get_residual_dim (hd factors))
      in concat (map (\<lambda>i.
           let operand = variables (factors ! i) ! s;
               local_offset = the (index_from_variable lmd operand);
               local_dim = int (get_local_parameter_dim (var_type operand))
           in concat (map (\<lambda>r. map (\<lambda>c. (r, c)) [local_offset..local_offset + local_dim - 1])
                        [row_offset + int i * residual_dim
                           ..row_offset + (int i + 1) * residual_dim - 1]))
         [0..<length factors]))"

text \<open>The row of local indices that the loop appends for an operand.\<close>

definition local_row :: "StorageMetadata \<Rightarrow> VariableBase \<Rightarrow> int list" where
  "local_row lmd v =
     arange (the (index_from_variable lmd v))
       (the (index_from_variable lmd v) + int (get_local_parameter_dim (var_type v)))"

subsection \<open>\<open>FactorStack.make\<close>\<close>

record FactorStack =
  num_factors :: nat
  factor :: FactorBase
  value_indices :: "int list list list"

text \<open>
  The methods of the variable and factor classes that the batched evaluation calls:
  \<open>unflatten\<close> of a variable class, and \<open>compute_residual_vector\<close> and
  \<open>compute_residual_jacobians\<close> of the factor class, applied to one factor and the
  values of its operands. \<open>'v\<close> is the type of variable values and \<open>'j\<close> that of a
  Jacobian block.
\<close>

record ('v, 'j) factor_kernels =
  unflatten :: "variable_type \<Rightarrow> real list \<Rightarrow> 'v"
  factor_compute_residual_vector :: "FactorBase \<Rightarrow> 'v list \<Rightarrow> real list"
  factor_compute_residual_jacobians :: "FactorBase \<Rightarrow> 'v list \<Rightarrow> 'j list"

text \<open>
  Modelled from the spec: \<open>FactorBase.anonymize_variables\<close> and the pytree structure
  of a factor, which are outside the source files. Anonymizing replaces every operand
  by the canonical instance of its class, so that factors connected to different
  variables have one tree structure (the comment in \<open>make\<close> says that without it the
  tree structures differ). The structure of a factor is its class, its operands, its
  residual dimension and the number of its array fields.
\<close>

definition canonical_instance :: "variable_type \<Rightarrow> VariableBase" where
  "canonical_instance T = \<lparr>var_id = 0, var_type = T\<rparr>"

definition anonymize_variables :: "FactorBase \<Rightarrow> FactorBase" where
  "anonymize_variables f =
     f\<lparr>variables := map (\<lambda>v. canonical_instance (var_type v)) (variables f)\<rparr>"

definition treedef :: "FactorBase \<Rightarrow> nat \<times> VariableBase list \<times> nat \<times> nat" where
  "treedef f = (factor_type f, variables f, get_residual_dim f, length (leaves f))"

text \<open>
  \<open>stack(arrays, axis=0)\<close>: the arrays must have one shape and become the entries of
  a new leading axis. \<open>make\<close> takes the function from \<open>onp\<close> or from \<open>jnp\<close> according to
  \<open>use_onp\<close>; on arrays of real numbers the two are the same function.
\<close>

definition np_stack :: "ndarray list \<Rightarrow> error + ndarray" where
  "np_stack arrays =
     (case arrays of
        [] \<Rightarrow> Inl ShapeMismatch
      | a # as \<Rightarrow> if list_all (\<lambda>a'. shape a' = shape a) as then Inr (Array arrays)
                  else Inl ShapeMismatch)"

definition stack_with :: "bool \<Rightarrow> ndarray list \<Rightarrow> error + ndarray" where
  "stack_with use_onp arrays = np_stack arrays"

text \<open>
  \<open>jax.tree_map(lambda *arrays: stack(arrays, axis=0), *trees)\<close>: it needs at least one
  tree, all trees must have the structure of the first, and the function is applied to
  the corresponding leaves of all trees, field by field.
\<close>

definition tree_map_stack :: "bool \<Rightarrow> FactorBase list \<Rightarrow> error + FactorBase" where
  "tree_map_stack use_onp trees =
     (case trees of
        [] \<Rightarrow> Inl EmptyBatch
      | t # ts \<Rightarrow>
          if list_all (\<lambda>t'. treedef t' = treedef t) ts
          then (case sequence_err
                       (map (\<lambda>j. stack_with use_onp (map (\<lambda>t'. leaves t' ! j) trees))
                          [0..<length (leaves t)]) of
                  Inl e \<Rightarrow> Inl e
                | Inr stacked \<Rightarrow> Inr (t\<lparr>leaves := stacked\<rparr>))
          else Inl TreeStructureMismatch)"

text \<open>
  The body of the double loop of \<open>make\<close>: the assertion on the operand's class, the
  lookup of its storage position, and the range of its storage indices appended to the
  list of its slot.
\<close>

definition make_visit ::
  "FactorBase list \<Rightarrow> StorageMetadata \<Rightarrow> nat \<times> VariableBase \<Rightarrow> int list list list
     \<Rightarrow> error + int list list list" where
  "make_visit factors md iv value_indices_list =
     (case iv of (i, variable) \<Rightarrow>
        (case factors of
           [] \<Rightarrow> Inl IndexError
         | factor0 # _ \<Rightarrow>
             if \<not> i < length (variables factor0) then Inl IndexError
             else if \<not> isinstance variable (var_type (variables factor0 ! i))
               then Inl VariableTypeMismatch
             else (case index_from_variable md variable of
                     None \<Rightarrow> Inl KeyError
                   | Some storage_pos \<Rightarrow>
                       if \<not> i < length value_indices_list then Inl IndexError
                       else Inr (value_indices_list
                              [i := value_indices_list ! i
                                 @ [arange storage_pos
                                      (storage_pos
                                       + int (get_parameter_dim (var_type variable)))]]))))"

definition make_loop ::
  "FactorBase list \<Rightarrow> StorageMetadata \<Rightarrow> int list list list \<Rightarrow> error + int list list list" where
  "make_loop factors md value_indices_list =
     fold_err (\<lambda>f. fold_err (make_visit factors md) (enumerate 0 (variables f)))
       factors value_indices_list"

text \<open>The assertion of \<open>__post_init__\<close>.\<close>

definition FactorStack_init :: "FactorStack \<Rightarrow> error + FactorStack" where
  "FactorStack_init self =
     (if length (value_indices self) = length (variables (factor self)) then Inr self
      else Inl FieldCountMismatch)"

definition make :: "FactorBase list \<Rightarrow> StorageMetadata \<Rightarrow> bool \<Rightarrow> error + FactorStack" where
  "make factors md use_onp =
     (case tree_map_stack use_onp (map anonymize_variables factors) of
        Inl e \<Rightarrow> Inl e
      | Inr stacked_factor \<Rightarrow>
          (case make_loop factors md (replicate (length (variables stacked_factor)) []) of
             Inl e \<Rightarrow> Inl e
           | Inr value_indices_list \<Rightarrow>
               (case sequence_err (map onp_array value_indices_list) of
                  Inl e \<Rightarrow> Inl e
                | Inr value_indices_stacked \<Rightarrow>
                    FactorStack_init
                      \<lparr>num_factors = length factors,
                       factor = stacked_factor,
                       value_indices = value_indices_stacked\<rparr>)))"

text \<open>
  The parts of the stack that \<open>make\<close> returns when it succeeds: the row of storage
  indices of an operand, the stacked fields, and the stack itself.
\<close>

definition storage_row :: "StorageMetadata \<Rightarrow> VariableBase \<Rightarrow> int list" where
  "storage_row md v =
     arange (the (index_from_variable md v))
       (the (index_from_variable md v) + int (get_parameter_dim (var_type v)))"

definition stacked_leaves :: "FactorBase list \<Rightarrow> ndarray list" where
  "stacked_leaves trees =
     map (\<lambda>j. Array (map (\<lambda>t. leaves t ! j) trees)) [0..<length (leaves (hd trees))]"

definition make_result :: "FactorBase list \<Rightarrow> StorageMetadata \<Rightarrow> FactorStack" where
  "make_result factors md =
     \<lparr>num_factors = length factors,
      factor = (anonymize_variables (hd factors))
                 \<lparr>leaves := stacked_leaves (map anonymize_variables factors)\<rparr>,
      value_indices = map (\<lambda>i. map (\<lambda>f. storage_row md (variables f ! i)) factors)
                        [0..<length (variables (hd factors))]\<rparr>"

subsection \<open>Batched evaluation\<close>

text \<open>
  \<open>storage[indices]\<close> for an array of integer indices: every index is looked up, a
  negative index counts from the end, and an index out of range raises.
\<close>

definition take_index :: "real list \<Rightarrow> int \<Rightarrow> error + real" where
  "take_index xs i =
     (let n = int (length xs); j = (if i < 0 then n + i else i)
      in if 0 \<le> j \<and> j < n then Inr (xs ! nat j) else Inl IndexError)"

definition storage_gather :: "real list \<Rightarrow> int list list \<Rightarrow> error + real list list" where
  "storage_gather xs indices =
     sequence_err (map (\<lambda>row. sequence_err (map (take_index xs) row)) indices)"

text \<open>
  The first statement of \<open>compute_residual_vector\<close> and of \<open>compute_residual_jacobian\<close>:
  for every operand slot, the gathered storage rows of all factors, each turned into a
  variable value by the \<open>unflatten\<close> of the slot's class under \<open>jax.vmap\<close>.
\<close>

definition values_stacked ::
  "('v, 'j) factor_kernels \<Rightarrow> FactorStack \<Rightarrow> VariableAssignments \<Rightarrow> error + 'v list list" where
  "values_stacked K self assignments' =
     sequence_err
       (map (\<lambda>(variable, indices).
               case storage_gather (storage assignments') indices of
                 Inl e \<Rightarrow> Inl e
               | Inr gathered \<Rightarrow> Inr (map (unflatten K (var_type variable)) gathered))
          (zip (variables (factor self)) (value_indices self)))"

text \<open>
  \<open>jax.vmap\<close> of a method of the factor class over the stacked factor and the stacked
  operand values: every array leaf and every stacked value is mapped over its leading
  axis, these axes must all have one length, and the method is applied to the slices
  at each position of the axis.
\<close>

fun leading :: "ndarray \<Rightarrow> nat option" where
  "leading (Scalar x) = None"
| "leading (Array xs) = Some (length xs)"

fun index_leaf :: "ndarray \<Rightarrow> nat \<Rightarrow> ndarray" where
  "index_leaf (Scalar x) b = Scalar x"
| "index_leaf (Array xs) b = xs ! b"

definition factor_slice :: "FactorBase \<Rightarrow> nat \<Rightarrow> FactorBase" where
  "factor_slice f b = f\<lparr>leaves := map (\<lambda>a. index_leaf a b) (leaves f)\<rparr>"

definition vmap_axis_size :: "FactorBase \<Rightarrow> 'v list list \<Rightarrow> error + nat" where
  "vmap_axis_size f vals =
     (case map leading (leaves f) @ map (\<lambda>vs. Some (length vs)) vals of
        [] \<Rightarrow> Inl ShapeMismatch
      | None # _ \<Rightarrow> Inl ShapeMismatch
      | Some n # sizes \<Rightarrow>
          if list_all (\<lambda>size. size = Some n) sizes then Inr n else Inl ShapeMismatch)"

definition vmap_factor ::
  "(FactorBase \<Rightarrow> 'v list \<Rightarrow> 'r) \<Rightarrow> FactorBase \<Rightarrow> 'v list list \<Rightarrow> error + 'r list" where
  "vmap_factor fn f vals =
     (case vmap_axis_size f vals of
        Inl e \<Rightarrow> Inl e
      | Inr n \<Rightarrow> Inr (map (\<lambda>b. fn (factor_slice f b) (map (\<lambda>vs. vs ! b) vals)) [0..<n]))"

text \<open>
  The two evaluation methods of the stack. A batch of residual vectors is the list of
  the residual vectors of its members; the Jacobians come as one batch per operand slot.
\<close>

definition compute_residual_vector ::
  "('v, 'j) factor_kernels \<Rightarrow> FactorStack \<Rightarrow> VariableAssignments \<Rightarrow> error + real list list" where
  "compute_residual_vector K self assignments' =
     (case values_stacked K self assignments' of
        Inl e \<Rightarrow> Inl e
      | Inr vals \<Rightarrow> vmap_factor (factor_compute_residual_vector K) (factor self) vals)"

definition unzip_outputs :: "'j list list \<Rightarrow> 'j list list" where
  "unzip_outputs outs =
     (case outs of
        [] \<Rightarrow> []
      | out # _ \<Rightarrow> map (\<lambda>s. map (\<lambda>res. res ! s) outs) [0..<length out])"

definition compute_residual_jacobian ::
  "('v, 'j) factor_kernels \<Rightarrow> FactorStack \<Rightarrow> VariableAssignments \<Rightarrow> error + 'j list list" where
  "compute_residual_jacobian K self assignments' =
     (case values_stacked K self assignments' of
        Inl e \<Rightarrow> Inl e
      | Inr vals \<Rightarrow>
          (case vmap_factor (factor_compute_residual_jacobians K) (factor self) vals of
             Inl e \<Rightarrow> Inl e
           | Inr outs \<Rightarrow> Inr (unzip_outputs outs)))"

text \<open>
  Modelled from the spec: the evaluation of a single factor on the assignments, by
  \<open>VariableAssignments.get_value\<close> and the factor's own methods, which are outside the
  source files. The value of a variable is the \<open>unflatten\<close> of its slice of the storage,
  from its offset in the storage metadata over its storage dimension.
  \<open>py_slice xs start stop\<close> is \<open>xs[start:stop]\<close>.
\<close>

definition py_slice :: "'a list \<Rightarrow> int \<Rightarrow> int \<Rightarrow> 'a list" where
  "py_slice xs start stop =
     (let n = int (length xs);
          s = (if start < 0 then max (n + start) 0 else min start n);
          e = (if stop < 0 then max (n + stop) 0 else min stop n)
      in take (nat (e - s)) (drop (nat s) xs))"

definition get_value ::
  "('v, 'j) factor_kernels \<Rightarrow> VariableAssignments \<Rightarrow> VariableBase \<Rightarrow> error + 'v" where
  "get_value K assignments' variable =
     (case index_from_variable (storage_metadata assignments') variable of
        None \<Rightarrow> Inl KeyError
      | Some index \<Rightarrow>
          Inr (unflatten K (var_type variable)
                 (py_slice (storage assignments') index
                    (index + int (get_parameter_dim (var_type variable))))))"

definition factor_residual ::
  "('v, 'j) factor_kernels \<Rightarrow> VariableAssignments \<Rightarrow> FactorBase \<Rightarrow> error + real list" where
  "factor_residual K assignments' f =
     (case sequence_err (map (get_value K assignments') (variables f)) of
        Inl e \<Rightarrow> Inl e
      | Inr vals \<Rightarrow> Inr (factor_compute_residual_vector K f vals))"

definition factor_jacobians ::
  "('v, 'j) factor_kernels \<Rightarrow> VariableAssignments \<Rightarrow> FactorBase \<Rightarrow> error + 'j list" where
  "factor_jacobians K assignments' f =
     (case sequence_err (map (get_value K assignments') (variables f)) of
        Inl e \<Rightarrow> Inl e
      | Inr vals \<Rightarrow> Inr (factor_compute_residual_jacobians K f vals))"

definition operand_value ::
  "('v, 'j) factor_kernels \<Rightarrow> VariableAssignments \<Rightarrow> VariableBase \<Rightarrow> 'v" where
  "operand_value K assignments' v =
     unflatten K (var_type v)
       (py_slice (storage assignments')
          (the (index_from_variable (storage_metadata assignments') v))
          (the (index_from_variable (storage_metadata assignments') v)
           + int (get_parameter_dim (var_type v))))"

subsection \<open>Two between-factors on three planar poses\<close>

text \<open>
  A planar pose is stored in four numbers and has three tangent coordinates. The two
  factors connect the poses \<open>a\<close>, \<open>b\<close> and \<open>b\<close>, \<open>c\<close> and have two residual components each.
\<close>

definition SE2 :: variable_type where
  "SE2 = \<lparr>type_id = 2, base_ids = [0], get_parameter_dim = 4, get_local_parameter_dim = 3\<rparr>"

definition pose_a :: VariableBase where
  "pose_a = \<lparr>var_id = 1, var_type = SE2\<rparr>"

definition pose_b :: VariableBase where
  "pose_b = \<lparr>var_id = 2, var_type = SE2\<rparr>"

definition pose_c :: VariableBase where
  "pose_c = \<lparr>var_id = 3, var_type = SE2\<rparr>"

definition pose_metadata :: StorageMetadata where
  "pose_metadata = \<lparr>index_from_variable = [pose_a \<mapsto> 0, pose_b \<mapsto> 4, pose_c \<mapsto> 8]\<rparr>"

definition pose_local_metadata :: StorageMetadata where
  "pose_local_metadata = \<lparr>index_from_variable = [pose_a \<mapsto> 0, pose_b \<mapsto> 3, pose_c \<mapsto> 6]\<rparr>"

definition between_ab :: FactorBase where
  "between_ab = \<lparr>factor_type = 7, variables = [pose_a, pose_b],
     leaves = [Array [Scalar 1, Scalar 2]], get_residual_dim = 2\<rparr>"

definition between_bc :: FactorBase where
  "between_bc = \<lparr>factor_type = 7, variables = [pose_b, pose_c],
     leaves = [Array [Scalar 3, Scalar 4]], get_residual_dim = 2\<rparr>"


text \<open>
  A factor of the same class whose second operand is a point of the plane instead of
  a pose.
\<close>

definition R2 :: variable_type where
  "R2 = \<lparr>type_id = 1, base_ids = [0], get_parameter_dim = 2, get_local_parameter_dim = 2\<rparr>"

definition point_p :: VariableBase where
  "point_p = \<lparr>var_id = 4, var_type = R2\<rparr>"

definition sight_ap :: FactorBase where
  "sight_ap = \<lparr>factor_type = 7, variables = [pose_a, point_p],
     leaves = [Array [Scalar 5, Scalar 6]], get_residual_dim = 2\<rparr>"

definition pose_point_metadata :: StorageMetadata where
  "pose_point_metadata =
     \<lparr>index_from_variable = [pose_a \<mapsto> 0, pose_b \<mapsto> 4, pose_c \<mapsto> 8, point_p \<mapsto> 12]\<rparr>"


text \<open>
  Kernels for the between-factors: a variable value is its storage slice, the residual
  is the difference of the first two coordinates of the operands, and the Jacobian
  blocks are constant. The assignments hold three poses.
\<close>

definition pose_kernels :: "(real list, real list list) factor_kernels" where
  "pose_kernels =
     \<lparr>unflatten = (\<lambda>T xs. xs),
      factor_compute_residual_vector =
        (\<lambda>f vals. case vals of [x, y] \<Rightarrow> map2 (-) (take 2 y) (take 2 x) | _ \<Rightarrow> []),
      factor_compute_residual_jacobians =
        (\<lambda>f vals. case vals of
                     [x, y] \<Rightarrow> [[[-1, 0, 0], [0, -1, 0]], [[1, 0, 0], [0, 1, 0]]]
                   | _ \<Rightarrow> [])\<rparr>"

definition pose_assignments :: VariableAssignments where
  "pose_assignments =
     \<lparr>storage = [0, 1, 2, 3, 10, 12, 14, 16, 30, 33, 36, 39],
      storage_metadata = pose_metadata\<rparr>"


section \<open>Properties of the Levenberg-Marquardt step\<close>

lemmas step_defs = step_def accept_flag_def step_quality_def proposed_cost_def
  proposed_residual_vector_def assignments_proposed_def local_delta_assignments_def
  step_vector_def step_ATb_def step_A_def jnp_where_def

lemmas cubic_defs = cubic_solver_def cubic_graph_def cubic_start_def cubic_start2_def
  overshoot_solver_def gain_ratio_def predicted_reduction_def dot_def
  dense_matvec_def dense_transpose_matvec_def cubic_residual_def

lemma cubic_state0_value:
  "cubic_state0 = \<lparr>iterations = 0, assignments = cubic_start, cost = 9,
     residual_vector = [3], done_flag = False, lambd = 1 / 2\<rparr>"
  by (simp add: cubic_state0_def initialize_state_def cubic_defs)

lemma cubic_state1_value:
  "cubic_state1 = \<lparr>iterations = 1, assignments = cubic_start, cost = 9,
     residual_vector = [-19], done_flag = False, lambd = 1\<rparr>"
  unfolding cubic_state1_def cubic_state0_value
  by (simp add: step_defs cubic_defs Let_def)

lemma cubic_state0_rejected: "\<not> accept_flag cubic_solver cubic_graph cubic_state0"
  unfolding cubic_state0_value
  by (simp add: step_defs cubic_defs Let_def)

lemma cubic_state0'_value:
  "cubic_state0' = \<lparr>iterations = 0, assignments = cubic_start2, cost = 36,
     residual_vector = [6], done_flag = False, lambd = 1 / 2\<rparr>"
  by (simp add: cubic_state0'_def initialize_state_def cubic_defs)

lemma cubic_state0'_accepted: "accept_flag cubic_solver cubic_graph cubic_state0'"
  unfolding cubic_state0'_value
  by (simp add: step_defs cubic_defs Let_def)





text \<open>What the commit of \<open>_step\<close> does in general, for either outcome of the test.\<close>

lemma step_commit_accepted:
  assumes "accept_flag self graph state_prev"
  shows "storage (assignments (step self graph state_prev))
           = storage (assignments_proposed self graph state_prev)"
    and "cost (step self graph state_prev) = proposed_cost self graph state_prev"
    and "residual_vector (step self graph state_prev)
           = proposed_residual_vector self graph state_prev"
  using assms by (simp_all add: step_def jnp_where_def Let_def)

lemma step_commit_rejected:
  assumes "\<not> accept_flag self graph state_prev"
  shows "assignments (step self graph state_prev) = assignments state_prev"
    and "cost (step self graph state_prev) = cost state_prev"
    and "residual_vector (step self graph state_prev)
           = proposed_residual_vector self graph state_prev"
  using assms by (simp_all add: step_def jnp_where_def Let_def)

text \<open>
  Claim C1. On a rejected step the returned assignments, cost and residual vector should
  all be those of the previous state. The source guards the assignments and the cost
  with the acceptance flag but returns the candidate's residual vector unconditionally.
  On the cubic problem started at \<open>x = -1\<close> with \<open>\<lambda> = 1/2\<close> the first step is rejected;
  assignments and cost stay as they were, while the residual vector changes from \<open>[3]\<close>
  to the rejected candidate's \<open>[-19]\<close>.
\<close>

theorem step_rejected_residual_vector_not_restored:
  "\<not> accept_flag cubic_solver cubic_graph cubic_state0
   \<and> assignments (step cubic_solver cubic_graph cubic_state0) = assignments cubic_state0
   \<and> cost (step cubic_solver cubic_graph cubic_state0) = cost cubic_state0
   \<and> residual_vector cubic_state0 = [3]
   \<and> residual_vector (step cubic_solver cubic_graph cubic_state0) = [-19]"
proof -
  have "step cubic_solver cubic_graph cubic_state0
          = \<lparr>iterations = 1, assignments = cubic_start, cost = 9,
             residual_vector = [-19], done_flag = False, lambd = 1\<rparr>"
    using cubic_state1_value by (simp add: cubic_state1_def)
  then show ?thesis
    using cubic_state0_rejected by (simp add: cubic_state0_value)
qed

text \<open>
  Claim C4. When the step is accepted the new damping is the previous one divided by
  \<open>lambda_factor\<close>, with no clamp. When it is rejected the new damping is the previous
  one times \<open>lambda_factor\<close>, clamped from above by \<open>lambda_max\<close> and then from below by
  \<open>lambda_min\<close>, so that it lies in \<open>[lambda_min, lambda_max]\<close> whenever that interval is
  not empty. The factor is taken to be non-zero, as the division needs.
\<close>

theorem step_damping_update:
  assumes "lambda_factor self \<noteq> 0"
  shows "(accept_flag self graph state_prev \<longrightarrow>
            lambd (step self graph state_prev) = lambd state_prev / lambda_factor self)
       \<and> (\<not> accept_flag self graph state_prev \<longrightarrow>
            lambd (step self graph state_prev)
              = max (lambda_min self)
                  (min (lambd state_prev * lambda_factor self) (lambda_max self))
            \<and> (lambda_min self \<le> lambda_max self \<longrightarrow>
                 lambda_min self \<le> lambd (step self graph state_prev)
                 \<and> lambd (step self graph state_prev) \<le> lambda_max self))"
  by (simp add: step_def jnp_where_def Let_def)

theorem step_damping_update_witness:
  "lambda_factor cubic_solver \<noteq> 0
   \<and> \<not> accept_flag cubic_solver cubic_graph cubic_state0
   \<and> lambda_min cubic_solver \<le> lambda_max cubic_solver
   \<and> lambd (step cubic_solver cubic_graph cubic_state0) = 1
   \<and> lambda_min cubic_solver \<le> lambd (step cubic_solver cubic_graph cubic_state0)
   \<and> lambd (step cubic_solver cubic_graph cubic_state0) \<le> lambda_max cubic_solver
   \<and> accept_flag cubic_solver cubic_graph cubic_state0'
   \<and> lambd (step cubic_solver cubic_graph cubic_state0') = 1 / 4"
proof -
  have f: "lambda_factor cubic_solver \<noteq> 0"
    by (simp add: cubic_solver_def)
  have b: "lambda_min cubic_solver \<le> lambda_max cubic_solver"
    by (simp add: cubic_solver_def)
  have l0: "lambd cubic_state0 = 1 / 2" and l1: "lambd cubic_state0' = 1 / 2"
    by (simp_all add: cubic_state0_value cubic_state0'_value)
  have c: "lambda_factor cubic_solver = 2" "lambda_min cubic_solver = 1 / 100000"
    "lambda_max cubic_solver = 10000000000"
    by (simp_all add: cubic_solver_def)
  show ?thesis
    using step_damping_update [OF f, of cubic_graph cubic_state0]
      step_damping_update [OF f, of cubic_graph cubic_state0']
      cubic_state0_rejected cubic_state0'_accepted
    by (simp add: l0 l1 c)
qed




text \<open>
  Claim C6. The \<open>done\<close> flag of the returned state is true exactly when the
  maximum-iteration check on the previous state holds, or the step is accepted and the
  termination-criteria check (on the previous state, the candidate cost, the local
  delta and the negative gradient) holds.
\<close>

theorem step_done_flag:
  "done_flag (step self graph state_prev) \<longleftrightarrow>
     check_exceeded_max_iterations self state_prev
     \<or> (accept_flag self graph state_prev
        \<and> check_convergence self state_prev
             (proposed_cost self graph state_prev)
             (local_delta_assignments self graph state_prev)
             (step_ATb self graph state_prev))"
  by (simp add: step_def Let_def)

theorem step_done_flag_witness:
  "\<not> done_flag (step cubic_solver cubic_graph cubic_state0)
   \<and> done_flag (step cubic_solver cubic_graph (cubic_state0\<lparr>iterations := 99\<rparr>))"
proof -
  have a: "\<not> check_exceeded_max_iterations cubic_solver cubic_state0"
    by (simp add: cubic_solver_def cubic_state0_value)
  have b: "check_exceeded_max_iterations cubic_solver (cubic_state0\<lparr>iterations := 99\<rparr>)"
    by (simp add: cubic_solver_def)
  show ?thesis
    using step_done_flag [of cubic_solver cubic_graph cubic_state0]
      step_done_flag [of cubic_solver cubic_graph "cubic_state0\<lparr>iterations := 99\<rparr>"]
      a b cubic_state0_rejected
    by simp
qed

text \<open>
  Claim C10. Every step, accepted or rejected, adds exactly one to the iteration
  counter, so that \<open>k\<close> steps from the initial state leave the counter at \<open>k\<close>.
\<close>

theorem step_iterations_counter:
  "iterations (step self graph state_prev) = iterations state_prev + 1
   \<and> iterations ((step self graph ^^ k) (initialize_state self graph initial)) = int k"
proof
  show "iterations (step self graph state_prev) = iterations state_prev + 1"
    by (simp add: step_def Let_def)
next
  show "iterations ((step self graph ^^ k) (initialize_state self graph initial)) = int k"
  proof (induction k)
    case 0
    show ?case by (simp add: initialize_state_def split_beta)
  next
    case (Suc k)
    have "iterations ((step self graph ^^ Suc k) (initialize_state self graph initial))
            = iterations ((step self graph ^^ k) (initialize_state self graph initial)) + 1"
      by (simp add: step_def Let_def)
    with Suc show ?case by simp
  qed
qed

theorem step_iterations_counter_witness:
  "iterations (step cubic_solver cubic_graph cubic_state0) = 1
   \<and> iterations ((step cubic_solver cubic_graph ^^ 2)
        (initialize_state cubic_solver cubic_graph cubic_start)) = 2"
  using step_iterations_counter [of cubic_solver cubic_graph cubic_state0 2 cubic_start]
  by (simp add: cubic_state0_value)


section \<open>Properties of the factor stack\<close>

subsection \<open>Index ranges and the loops over factors and operands\<close>

lemma arange_map: "arange a (a + int n) = map (\<lambda>k. a + int k) [0..<n]"
proof (induction n)
  case 0
  show ?case by (simp add: arange_def)
next
  case (Suc n)
  have "[a..a + int (Suc n) - 1] = [a..a + int n - 1] @ [a + int n]"
    using upto_rec2 [of a "a + int n"] by (simp add: add.commute)
  with Suc show ?case by (simp add: arange_def)
qed

lemma length_arange: "length (arange a (a + int n)) = n"
  by (simp add: arange_map)

lemma fold_err_enumerate_append:
  fixes visit :: "nat \<times> 'v \<Rightarrow> 'r list list \<Rightarrow> 'e + 'r list list"
  assumes "\<And>i v acc. (i, v) \<in> set (enumerate k vs) \<Longrightarrow> length acc = n
             \<Longrightarrow> visit (i, v) acc = Inr (acc[i := acc ! i @ [g v]])"
    and "k + length vs \<le> n" and "length acc = n"
  shows "fold_err visit (enumerate k vs) acc
           = Inr (map (\<lambda>i. if k \<le> i \<and> i < k + length vs
                            then acc ! i @ [g (vs ! (i - k))] else acc ! i) [0..<n])"
  using assms
proof (induction vs arbitrary: k acc)
  case Nil
  then show ?case by (auto simp: list_eq_iff_nth_eq)
next
  case (Cons v vs)
  let ?acc = "acc[k := acc ! k @ [g v]]"
  have step: "visit (k, v) acc = Inr ?acc"
    using Cons.prems(1) [of k v acc] Cons.prems(3) by simp
  have len: "length ?acc = n" using Cons.prems(3) by simp
  have ih: "fold_err visit (enumerate (Suc k) vs) ?acc
              = Inr (map (\<lambda>i. if Suc k \<le> i \<and> i < Suc k + length vs
                            then ?acc ! i @ [g (vs ! (i - Suc k))] else ?acc ! i) [0..<n])"
  proof (rule Cons.IH)
    fix i w and acc' :: "'r list list"
    assume "(i, w) \<in> set (enumerate (Suc k) vs)" "length acc' = n"
    then show "visit (i, w) acc' = Inr (acc'[i := acc' ! i @ [g w]])"
      using Cons.prems(1) [of i w acc'] by simp
  next
    show "Suc k + length vs \<le> n" using Cons.prems(2) by simp
  next
    show "length ?acc = n" by (rule len)
  qed
  have "map (\<lambda>i. if Suc k \<le> i \<and> i < Suc k + length vs
                  then ?acc ! i @ [g (vs ! (i - Suc k))] else ?acc ! i) [0..<n]
        = map (\<lambda>i. if k \<le> i \<and> i < k + length (v # vs)
                  then acc ! i @ [g ((v # vs) ! (i - k))] else acc ! i) [0..<n]"
    using Cons.prems(2,3)
    by (auto simp: nth_list_update nth_Cons' Suc_diff_Suc)
  with ih step show ?case by simp
qed

lemma fold_err_factors_append:
  fixes inner :: "'f \<Rightarrow> 'r list list \<Rightarrow> 'e + 'r list list"
  assumes "\<And>f acc. f \<in> set fs \<Longrightarrow> length acc = n
             \<Longrightarrow> inner f acc = Inr (map (\<lambda>i. acc ! i @ [g f i]) [0..<n])"
    and "length acc = n"
  shows "fold_err inner fs acc = Inr (map (\<lambda>i. acc ! i @ map (\<lambda>f. g f i) fs) [0..<n])"
  using assms
proof (induction fs arbitrary: acc)
  case Nil
  then show ?case by (auto simp: list_eq_iff_nth_eq)
next
  case (Cons f fs)
  let ?acc = "map (\<lambda>i. acc ! i @ [g f i]) [0..<n]"
  have step: "inner f acc = Inr ?acc"
    using Cons.prems(1) [of f acc] Cons.prems(2) by simp
  have "fold_err inner fs ?acc = Inr (map (\<lambda>i. ?acc ! i @ map (\<lambda>f. g f i) fs) [0..<n])"
    by (rule Cons.IH) (use Cons.prems(1) in auto)
  with step show ?case by simp
qed

lemma coords_visit_append:
  assumes "index_from_variable lmd v \<noteq> None" and "i < length acc"
  shows "coords_visit lmd (i, v) acc = Inr (acc[i := acc ! i @ [local_row lmd v]])"
  using assms by (auto simp: coords_visit_def local_row_def)

lemma coords_inner:
  assumes "\<forall>v\<in>set vs. index_from_variable lmd v \<noteq> None"
    and "length vs = n" and "length acc = n"
  shows "fold_err (coords_visit lmd) (enumerate 0 vs) acc
           = Inr (map (\<lambda>i. acc ! i @ [local_row lmd (vs ! i)]) [0..<n])"
proof -
  have "fold_err (coords_visit lmd) (enumerate 0 vs) acc
          = Inr (map (\<lambda>i. if 0 \<le> i \<and> i < 0 + length vs
                          then acc ! i @ [local_row lmd (vs ! (i - 0))] else acc ! i) [0..<n])"
  proof (rule fold_err_enumerate_append)
    fix i v and acc' :: "int list list list"
    assume "(i, v) \<in> set (enumerate 0 vs)" "length acc' = n"
    then have "v \<in> set vs" "i < length acc'"
      using assms(2) by (auto simp: in_set_enumerate_eq)
    then show "coords_visit lmd (i, v) acc' = Inr (acc'[i := acc' ! i @ [local_row lmd v]])"
      using assms(1) by (simp add: coords_visit_append)
  qed (use assms in auto)
  then show ?thesis using assms(2) by simp
qed

lemma coords_loop_value:
  assumes "\<forall>f\<in>set factors. length (variables f) = n"
    and "\<forall>f\<in>set factors. \<forall>v\<in>set (variables f). index_from_variable lmd v \<noteq> None"
  shows "coords_loop factors lmd (replicate n [])
           = Inr (map (\<lambda>i. map (\<lambda>f. local_row lmd (variables f ! i)) factors) [0..<n])"
proof -
  have "fold_err (\<lambda>f. fold_err (coords_visit lmd) (enumerate 0 (variables f))) factors
          (replicate n [])
        = Inr (map (\<lambda>i. replicate n [] ! i
                        @ map (\<lambda>f. local_row lmd (variables f ! i)) factors) [0..<n])"
  proof (rule fold_err_factors_append)
    fix f and acc :: "int list list list"
    assume "f \<in> set factors" "length acc = n"
    then show "fold_err (coords_visit lmd) (enumerate 0 (variables f)) acc
                 = Inr (map (\<lambda>i. acc ! i @ [local_row lmd (variables f ! i)]) [0..<n])"
      using assms by (intro coords_inner) auto
  qed simp
  then show ?thesis by (simp add: coords_loop_def)
qed

lemma sequence_err_map_Inr:
  assumes "\<forall>x\<in>set xs. h x = Inr (k x)"
  shows "sequence_err (map h xs) = Inr (map k xs)"
  using assms by (induction xs) auto

lemma onp_array_regular:
  assumes "\<forall>r\<in>set a. length r = d"
  shows "onp_array a = Inr a"
  using assms by (cases a) (auto simp: onp_array_def list_all_iff)

lemma reshape2_arange:
  "reshape2 n r (arange 0 (int (n * r)))
     = map (\<lambda>i. map (\<lambda>j. int (i * r + j)) [0..<r]) [0..<n]"
proof -
  have a: "arange 0 (int (n * r)) = map int [0..<n * r]"
    using arange_map [of 0 "n * r"] by simp
  have "take r (drop (i * r) (map int [0..<n * r])) = map (\<lambda>j. int (i * r + j)) [0..<r]"
    if "i < n" for i
  proof -
    have "i * r + r \<le> n * r"
      using that by (metis Suc_leI mult_Suc mult_le_mono1 add.commute)
    then have "take r (drop (i * r) [0..<n * r]) = [i * r..<i * r + r]"
      by (simp add: take_upt add.commute)
    also have "\<dots> = map (\<lambda>j. i * r + j) [0..<r]"
      by (simp add: map_add_upt add.commute)
    finally show ?thesis by (simp add: take_map drop_map o_def)
  qed
  then show ?thesis unfolding reshape2_def a by simp
qed

subsection \<open>The coordinates of the sparse Jacobian\<close>

lemma upto_map: "[a..a + int n - 1] = map (\<lambda>k. a + int k) [0..<n]"
  using arange_map [of a n] by (simp add: arange_def)

lemma broadcast_cols_regular:
  assumes "length a = n" and "0 < n" and "\<forall>row\<in>set a. length row = v"
  shows "broadcast_cols n r v a = Inr (map (\<lambda>i. replicate r (a ! i)) [0..<n])"
proof (cases a)
  case Nil
  with assms show ?thesis by simp
next
  case (Cons a0 rest)
  have len0: "length a0 = v" using assms(3) Cons by simp
  have inner: "map (\<lambda>k. a ! (if length a = 1 then 0 else i)
                        ! (if length a0 = 1 then 0 else k)) [0..<v] = a ! i"
    if "i < n" for i
  proof -
    have i: "(if length a = 1 then 0 else i) = i"
      using that assms(1) by auto
    have row: "length (a ! i) = v"
      using that assms(1,3) by simp
    have "map (\<lambda>k. a ! i ! (if length a0 = 1 then 0 else k)) [0..<v] = map (\<lambda>k. a ! i ! k) [0..<v]"
      using len0 by auto
    also have "\<dots> = a ! i"
      using row by (auto simp: list_eq_iff_nth_eq)
    finally show ?thesis by (simp only: i)
  qed
  have "broadcast_cols n r v a
          = Inr (map (\<lambda>i. replicate r
                    (map (\<lambda>k. a ! (if length a = 1 then 0 else i)
                               ! (if length a0 = 1 then 0 else k)) [0..<v])) [0..<n])"
    using assms(1) len0 Cons by (simp add: broadcast_cols_def)
  also have "\<dots> = Inr (map (\<lambda>i. replicate r (a ! i)) [0..<n])"
    using inner by simp
  finally show ?thesis .
qed

lemma map2_upt: "map2 f (map p [0..<n]) (map q [0..<n]) = map (\<lambda>i. f (p i) (q i)) [0..<n]"
  by (auto simp: list_eq_iff_nth_eq)

lemma map2_replicate_right:
  "map2 f (map p [0..<n]) (replicate n y) = map (\<lambda>i. f (p i) y) [0..<n]"
  by (auto simp: list_eq_iff_nth_eq)

lemma zip_replicate_left:
  "length ys = n \<Longrightarrow> zip (replicate n x) ys = map (\<lambda>y. (x, y)) ys"
  by (auto simp: list_eq_iff_nth_eq)

lemma concat_concat_map: "concat (concat xsss) = concat (map concat xsss)"
  by (induction xsss) auto

lemma stack_last_reshape_value:
  assumes "\<forall>i<n. length (c i) = v"
  shows "stack_last_reshape
           (map (map (map (\<lambda>x. x + off)))
              (broadcast_rows v (map (\<lambda>i. map (\<lambda>j. int (i * r + j)) [0..<r]) [0..<n])))
           (map (\<lambda>i. replicate r (c i)) [0..<n])
         = concat (map (\<lambda>i. concat (map (\<lambda>j. map (\<lambda>y. (int (i * r + j) + off, y)) (c i))
                                        [0..<r])) [0..<n])"
proof -
  have rows: "map (map (map (\<lambda>x. x + off)))
                (broadcast_rows v (map (\<lambda>i. map (\<lambda>j. int (i * r + j)) [0..<r]) [0..<n]))
              = map (\<lambda>i. map (\<lambda>j. replicate v (int (i * r + j) + off)) [0..<r]) [0..<n]"
    by (simp add: broadcast_rows_def o_def)
  have "map2 (map2 zip)
          (map (\<lambda>i. map (\<lambda>j. replicate v (int (i * r + j) + off)) [0..<r]) [0..<n])
          (map (\<lambda>i. replicate r (c i)) [0..<n])
        = map (\<lambda>i. map (\<lambda>j. map (\<lambda>y. (int (i * r + j) + off, y)) (c i)) [0..<r]) [0..<n]"
    using assms by (simp add: map2_upt map2_replicate_right zip_replicate_left)
  then show ?thesis
    unfolding stack_last_reshape_def rows
    by (simp add: concat_concat_map o_def)
qed

lemma spec_jacobian_pairs_alt:
  "spec_jacobian_pairs factors lmd row_offset s
     = concat (map (\<lambda>i. concat (map (\<lambda>j. map (\<lambda>y. (int (i * get_residual_dim (hd factors) + j)
                                                      + row_offset, y))
                                             (local_row lmd (variables (factors ! i) ! s)))
                                  [0..<get_residual_dim (hd factors)]))
                 [0..<length factors])"
proof -
  let ?R = "get_residual_dim (hd factors)"
  have rows: "[row_offset + int i * int ?R..row_offset + (int i + 1) * int ?R - 1]
                = map (\<lambda>j. int (i * ?R + j) + row_offset) [0..<?R]" for i
  proof -
    have e: "row_offset + (int i + 1) * int ?R - 1 = (row_offset + int i * int ?R) + int ?R - 1"
      by (simp add: algebra_simps)
    have "[row_offset + int i * int ?R..row_offset + (int i + 1) * int ?R - 1]
                 = map (\<lambda>k. (row_offset + int i * int ?R) + int k) [0..<?R]"
      unfolding e by (rule upto_map)
    also have "\<dots> = map (\<lambda>j. int (i * ?R + j) + row_offset) [0..<?R]"
      by (simp add: algebra_simps)
    finally show ?thesis .
  qed
  show ?thesis
    unfolding spec_jacobian_pairs_def Let_def rows
    by (simp add: local_row_def arange_def o_def)
qed

lemma map_enumerate_index: "map (\<lambda>(s, t). k s) (enumerate 0 ys) = map k [0..<length ys]"
  by (rule nth_equalityI) (simp_all add: nth_enumerate_eq)

lemma compute_jacobian_coords_nonempty:
  assumes "factors \<noteq> []"
  shows "compute_jacobian_coords factors lmd row_offset =
     (case coords_loop factors lmd (replicate (length (variables (hd factors))) []) of
        Inl e \<Rightarrow> Inl e
      | Inr local_value_indices_list \<Rightarrow>
          (case sequence_err (map onp_array local_value_indices_list) of
             Inl e \<Rightarrow> Inl e
           | Inr local_value_indices_stacked \<Rightarrow>
               sequence_err
                 (map (\<lambda>(variable_index, variable_type).
                         slot_coords (length factors) (get_residual_dim (hd factors)) row_offset
                           (reshape2 (length factors) (get_residual_dim (hd factors))
                              (arange 0 (int (length factors * get_residual_dim (hd factors)))))
                           variable_type
                           (local_value_indices_stacked ! variable_index))
                    (enumerate 0 (map var_type (variables (hd factors)))))))"
proof (cases factors)
  case Nil
  with assms show ?thesis by simp
next
  case (Cons factor0 rest)
  show ?thesis
    unfolding Cons compute_jacobian_coords_def Let_def list.case list.sel length_map
    by (rule refl)
qed

text \<open>
  Claim C2. For a non-empty sequence of factors whose operand classes agree slot by
  slot with those of the first factor, and whose operands all have an entry in the
  local storage metadata, \<open>compute_jacobian_coords\<close> returns one coordinate object per
  operand slot, and its rows and columns are the two components of the pair list of the
  specification: factor \<open>i\<close> owns the rows \<open>row_offset + i * residual_dim\<close> up to
  \<open>row_offset + (i + 1) * residual_dim - 1\<close>, its columns are the \<open>local_dim\<close> indices
  from the operand's local offset, and the pairs run batch-major, then by residual row,
  then by column.
\<close>

theorem compute_jacobian_coords_layout:
  assumes ne: "factors \<noteq> []"
    and types: "\<forall>f\<in>set factors.
                  map var_type (variables f) = map var_type (variables (hd factors))"
    and md: "\<forall>f\<in>set factors. \<forall>v\<in>set (variables f). index_from_variable lmd v \<noteq> None"
  shows "compute_jacobian_coords factors lmd row_offset
           = Inr (map (\<lambda>s. \<lparr>rows = map fst (spec_jacobian_pairs factors lmd row_offset s),
                            cols = map snd (spec_jacobian_pairs factors lmd row_offset s)\<rparr>)
                    [0..<length (variables (hd factors))])"
proof -
  define factor0 where "factor0 = hd factors"
  have fs: "hd factors = factor0" by (simp add: factor0_def)
  have types0: "\<forall>f\<in>set factors.
                  map var_type (variables f) = map var_type (variables factor0)"
    using types by (simp add: fs)
  let ?n = "length (variables factor0)"
  let ?N = "length factors"
  let ?R = "get_residual_dim factor0"
  let ?L = "map (\<lambda>i. map (\<lambda>f. local_row lmd (variables f ! i)) factors) [0..<?n]"
  have len: "\<forall>f\<in>set factors. length (variables f) = ?n"
  proof
    fix f assume "f \<in> set factors"
    then have "map var_type (variables f) = map var_type (variables factor0)"
      using types0 by simp
    then show "length (variables f) = ?n" by (rule map_eq_imp_length_eq)
  qed
  have ty: "var_type (variables f ! i) = var_type (variables factor0 ! i)"
    if "f \<in> set factors" "i < ?n" for f i
  proof -
    have "map var_type (variables f) ! i = map var_type (variables factor0) ! i"
      using types0 that(1) by simp
    then show ?thesis using that len by simp
  qed
  have loop: "coords_loop factors lmd (replicate ?n []) = Inr ?L"
    using len md by (rule coords_loop_value)
  have rowlen: "length row = get_local_parameter_dim (var_type (variables factor0 ! i))"
    if "i < ?n" "row \<in> set (?L ! i)" for i row
  proof -
    from that obtain f where f: "f \<in> set factors" "row = local_row lmd (variables f ! i)"
      by auto
    then show ?thesis using ty [OF f(1) that(1)] by (simp add: local_row_def length_arange)
  qed
  have stacked: "sequence_err (map onp_array ?L) = Inr ?L"
  proof -
    have "\<forall>a\<in>set ?L. onp_array a = Inr (id a)"
    proof
      fix a assume "a \<in> set ?L"
      then obtain i where i: "i < ?n" "a = ?L ! i" by auto
      then have "\<forall>row\<in>set a. length row
                   = get_local_parameter_dim (var_type (variables factor0 ! i))"
        using rowlen by blast
      then have "onp_array a = Inr a" by (rule onp_array_regular)
      then show "onp_array a = Inr (id a)" by simp
    qed
    then have "sequence_err (map onp_array ?L) = Inr (map id ?L)"
      by (rule sequence_err_map_Inr)
    then show ?thesis by simp
  qed
  have resid: "reshape2 ?N ?R (arange 0 (int (?N * ?R)))
                 = map (\<lambda>i. map (\<lambda>j. int (i * ?R + j)) [0..<?R]) [0..<?N]"
    by (rule reshape2_arange)
  have slot: "slot_coords ?N ?R row_offset
                (map (\<lambda>i. map (\<lambda>j. int (i * ?R + j)) [0..<?R]) [0..<?N])
                (var_type (variables factor0 ! s)) (?L ! s)
              = Inr \<lparr>rows = map fst (spec_jacobian_pairs factors lmd row_offset s),
                     cols = map snd (spec_jacobian_pairs factors lmd row_offset s)\<rparr>"
    if s: "s < ?n" for s
  proof -
    let ?V = "get_local_parameter_dim (var_type (variables factor0 ! s))"
    have Ls: "?L ! s = map (\<lambda>f. local_row lmd (variables f ! s)) factors"
      using s by simp
    have bc: "broadcast_cols ?N ?R ?V (?L ! s)
                = Inr (map (\<lambda>i. replicate ?R (?L ! s ! i)) [0..<?N])"
    proof (rule broadcast_cols_regular)
      show "length (?L ! s) = ?N" using s by simp
      show "0 < ?N" using ne by simp
      show "\<forall>row\<in>set (?L ! s). length row = ?V" using rowlen [OF s] by blast
    qed
    have "\<forall>i<?N. length (?L ! s ! i) = ?V"
      using rowlen [OF s] s by (metis (no_types, lifting) Ls length_map nth_mem)
    then have pairs: "stack_last_reshape
             (map (map (map (\<lambda>x. x + row_offset)))
                (broadcast_rows ?V (map (\<lambda>i. map (\<lambda>j. int (i * ?R + j)) [0..<?R]) [0..<?N])))
             (map (\<lambda>i. replicate ?R (?L ! s ! i)) [0..<?N])
           = concat (map (\<lambda>i. concat (map (\<lambda>j. map (\<lambda>y. (int (i * ?R + j) + row_offset, y))
                                                (?L ! s ! i)) [0..<?R])) [0..<?N])"
      by (rule stack_last_reshape_value)
    also have "\<dots> = spec_jacobian_pairs factors lmd row_offset s"
    proof -
      have hd0: "hd factors = factor0" by (rule fs)
      have "?L ! s ! i = local_row lmd (variables (factors ! i) ! s)" if "i < ?N" for i
        using that s by simp
      then show ?thesis
        unfolding spec_jacobian_pairs_alt hd0
        by (intro arg_cong [where f = concat] map_cong refl) simp
    qed
    finally show ?thesis
      by (simp add: slot_coords_def bc Let_def)
  qed
  have final: "sequence_err
                 (map (\<lambda>(variable_index, variable_type).
                         slot_coords ?N ?R row_offset
                           (map (\<lambda>i. map (\<lambda>j. int (i * ?R + j)) [0..<?R]) [0..<?N])
                           variable_type (?L ! variable_index))
                    (enumerate 0 (map var_type (variables factor0))))
               = Inr (map (\<lambda>(s, t). \<lparr>rows = map fst (spec_jacobian_pairs factors lmd row_offset s),
                            cols = map snd (spec_jacobian_pairs factors lmd row_offset s)\<rparr>)
                        (enumerate 0 (map var_type (variables factor0))))"
  proof (rule sequence_err_map_Inr, rule ballI)
    fix x
    assume "x \<in> set (enumerate 0 (map var_type (variables factor0)))"
    moreover obtain s t where st: "x = (s, t)" by (cases x) auto
    ultimately have x: "x = (s, var_type (variables factor0 ! s))" and s: "s < ?n"
      by (auto simp: in_set_enumerate_eq)
    show "(case x of (variable_index, variable_type) \<Rightarrow>
             slot_coords ?N ?R row_offset
               (map (\<lambda>i. map (\<lambda>j. int (i * ?R + j)) [0..<?R]) [0..<?N])
               variable_type (?L ! variable_index))
          = Inr (case x of (s, t) \<Rightarrow>
               \<lparr>rows = map fst (spec_jacobian_pairs factors lmd row_offset s),
                cols = map snd (spec_jacobian_pairs factors lmd row_offset s)\<rparr>)"
      unfolding x prod.case using slot [OF s] by simp
  qed
  have enum: "map (\<lambda>(s, t::variable_type). k s) (enumerate 0 (map var_type (variables factor0)))
                = map k [0..<?n]" for k :: "nat \<Rightarrow> SparseCooCoordinates"
    using map_enumerate_index [of k "map var_type (variables factor0)"] by simp
  show ?thesis
    unfolding compute_jacobian_coords_nonempty [OF ne] fs loop sum.case stacked resid final enum
    by (rule refl)
qed

lemmas pose_defs = SE2_def pose_a_def pose_b_def pose_c_def pose_metadata_def
  pose_local_metadata_def between_ab_def between_bc_def

theorem compute_jacobian_coords_layout_witness:
  "compute_jacobian_coords [between_ab, between_bc] pose_local_metadata 10
     = Inr [\<lparr>rows = [10, 10, 10, 11, 11, 11, 12, 12, 12, 13, 13, 13],
              cols = [0, 1, 2, 0, 1, 2, 3, 4, 5, 3, 4, 5]\<rparr>,
            \<lparr>rows = [10, 10, 10, 11, 11, 11, 12, 12, 12, 13, 13, 13],
              cols = [3, 4, 5, 3, 4, 5, 6, 7, 8, 6, 7, 8]\<rparr>]"
proof -
  have ne: "[between_ab, between_bc] \<noteq> []" by simp
  have ty: "\<forall>f\<in>set [between_ab, between_bc].
              map var_type (variables f) = map var_type (variables (hd [between_ab, between_bc]))"
    by (simp add: pose_defs)
  have md: "\<forall>f\<in>set [between_ab, between_bc]. \<forall>v\<in>set (variables f).
              index_from_variable pose_local_metadata v \<noteq> None"
    by (simp add: pose_defs)
  have s0: "spec_jacobian_pairs [between_ab, between_bc] pose_local_metadata 10 0
              = [(10, 0), (10, 1), (10, 2), (11, 0), (11, 1), (11, 2),
                 (12, 3), (12, 4), (12, 5), (13, 3), (13, 4), (13, 5)]"
    by (simp add: spec_jacobian_pairs_def pose_defs upt_rec_numeral upto_rec1)
  have s1: "spec_jacobian_pairs [between_ab, between_bc] pose_local_metadata 10 (Suc 0)
              = [(10, 3), (10, 4), (10, 5), (11, 3), (11, 4), (11, 5),
                 (12, 6), (12, 7), (12, 8), (13, 6), (13, 7), (13, 8)]"
    by (simp add: spec_jacobian_pairs_def pose_defs upt_rec_numeral upto_rec1)
  have n: "[0..<length (variables (hd [between_ab, between_bc]))] = [0, 1]"
    by (simp add: pose_defs upt_rec_numeral)
  show ?thesis
    unfolding compute_jacobian_coords_layout [OF ne ty md] n
    by (simp add: s0 s1)
qed

subsection \<open>Construction of a stack\<close>

lemma isinstance_same_type: "var_type v = T \<Longrightarrow> isinstance v T"
  by (auto simp: isinstance_def)

lemma make_visit_append:
  assumes "factors \<noteq> []" and "i < length (variables (hd factors))"
    and "var_type v = var_type (variables (hd factors) ! i)"
    and "index_from_variable md v \<noteq> None" and "i < length acc"
  shows "make_visit factors md (i, v) acc = Inr (acc[i := acc ! i @ [storage_row md v]])"
proof (cases factors)
  case Nil
  with assms(1) show ?thesis by simp
next
  case (Cons factor0 rest)
  then have "hd factors = factor0" by simp
  with assms Cons show ?thesis
    by (auto simp: make_visit_def storage_row_def isinstance_same_type)
qed

lemma make_visit_missing_key:
  assumes "index_from_variable md v = None"
  shows "\<exists>e. make_visit factors md (i, v) acc = Inl e"
  using assms by (auto simp: make_visit_def split: list.splits)

lemma fold_err_fails:
  assumes "x \<in> set xs" and "\<And>s. \<exists>e. f x s = Inl e"
  shows "\<exists>e. fold_err f xs s = Inl e"
  using assms(1)
proof (induction xs arbitrary: s)
  case Nil
  then show ?case by simp
next
  case (Cons y ys)
  show ?case
  proof (cases "f y s")
    case (Inl e)
    then show ?thesis by simp
  next
    case (Inr s')
    then have "y \<noteq> x" using assms(2) [of s] by auto
    then have "x \<in> set ys" using Cons.prems by simp
    then show ?thesis using Cons.IH [of s'] Inr by simp
  qed
qed

lemma make_loop_missing_key:
  assumes "f \<in> set factors" and "v \<in> set (variables f)"
    and "index_from_variable md v = None"
  shows "\<exists>e. make_loop factors md acc = Inl e"
  unfolding make_loop_def
proof (rule fold_err_fails [OF assms(1)])
  fix s
  obtain i where i: "i < length (variables f)" "variables f ! i = v"
    using assms(2) by (auto simp: in_set_conv_nth)
  then have "(i, v) \<in> set (enumerate 0 (variables f))"
    by (simp add: in_set_enumerate_eq)
  then show "\<exists>e. fold_err (make_visit factors md) (enumerate 0 (variables f)) s = Inl e"
    by (rule fold_err_fails) (rule make_visit_missing_key [OF assms(3)])
qed

lemma make_inner:
  assumes "factors \<noteq> []"
    and "map var_type vs = map var_type (variables (hd factors))"
    and "\<forall>v\<in>set vs. index_from_variable md v \<noteq> None"
    and "length acc = length (variables (hd factors))"
  shows "fold_err (make_visit factors md) (enumerate 0 vs) acc
           = Inr (map (\<lambda>i. acc ! i @ [storage_row md (vs ! i)])
                    [0..<length (variables (hd factors))])"
proof -
  let ?n = "length (variables (hd factors))"
  have n: "length vs = ?n"
    using assms(2) by (rule map_eq_imp_length_eq)
  have "fold_err (make_visit factors md) (enumerate 0 vs) acc
          = Inr (map (\<lambda>i. if 0 \<le> i \<and> i < 0 + length vs
                          then acc ! i @ [storage_row md (vs ! (i - 0))] else acc ! i) [0..<?n])"
  proof (rule fold_err_enumerate_append)
    fix i v and acc' :: "int list list list"
    assume iv: "(i, v) \<in> set (enumerate 0 vs)" and l: "length acc' = ?n"
    then have i: "i < ?n" and v: "v = vs ! i"
      using n by (auto simp: in_set_enumerate_eq)
    have "map var_type vs ! i = map var_type (variables (hd factors)) ! i"
      using assms(2) by simp
    then have "var_type v = var_type (variables (hd factors) ! i)"
      using i n v by simp
    moreover have "index_from_variable md v \<noteq> None"
      using assms(3) i n v by simp
    ultimately show "make_visit factors md (i, v) acc' = Inr (acc'[i := acc' ! i @ [storage_row md v]])"
      using assms(1) i l by (intro make_visit_append) simp_all
  next
    show "0 + length vs \<le> ?n" using n by simp
  next
    show "length acc = ?n" by (rule assms(4))
  qed
  then show ?thesis using n by simp
qed

lemma make_loop_value:
  assumes "factors \<noteq> []"
    and "\<forall>f\<in>set factors.
           map var_type (variables f) = map var_type (variables (hd factors))"
    and "\<forall>f\<in>set factors. \<forall>v\<in>set (variables f). index_from_variable md v \<noteq> None"
  shows "make_loop factors md (replicate (length (variables (hd factors))) [])
           = Inr (map (\<lambda>i. map (\<lambda>f. storage_row md (variables f ! i)) factors)
                    [0..<length (variables (hd factors))])"
proof -
  let ?n = "length (variables (hd factors))"
  have "fold_err (\<lambda>f. fold_err (make_visit factors md) (enumerate 0 (variables f))) factors
          (replicate ?n [])
        = Inr (map (\<lambda>i. replicate ?n [] ! i
                        @ map (\<lambda>f. storage_row md (variables f ! i)) factors) [0..<?n])"
  proof (rule fold_err_factors_append)
    fix f and acc :: "int list list list"
    assume "f \<in> set factors" "length acc = ?n"
    show "fold_err (make_visit factors md) (enumerate 0 (variables f)) acc
                 = Inr (map (\<lambda>i. acc ! i @ [storage_row md (variables f ! i)]) [0..<?n])"
    proof (rule make_inner [OF assms(1)])
      show "map var_type (variables f) = map var_type (variables (hd factors))"
        using assms(2) \<open>f \<in> set factors\<close> by blast
      show "\<forall>v\<in>set (variables f). index_from_variable md v \<noteq> None"
        using assms(3) \<open>f \<in> set factors\<close> by blast
      show "length acc = ?n" by fact
    qed
  qed simp
  then show ?thesis by (simp add: make_loop_def)
qed

lemma sequence_err_InrD: "sequence_err xs = Inr ys \<Longrightarrow> xs = map Inr ys"
proof (induction xs arbitrary: ys)
  case Nil
  then show ?case by simp
next
  case (Cons x xs)
  then show ?case by (auto split: sum.splits)
qed

lemma np_stack_InrD: "np_stack arrays = Inr a \<Longrightarrow> a = Array arrays"
  by (auto simp: np_stack_def split: list.splits if_splits)

lemma np_stack_same_shape:
  assumes "arrays \<noteq> []" and "\<forall>a\<in>set arrays. shape a = shape (hd arrays)"
  shows "np_stack arrays = Inr (Array arrays)"
  using assms by (cases arrays) (auto simp: np_stack_def list_all_iff)

lemma tree_map_stack_InrD:
  assumes "tree_map_stack use_onp trees = Inr sf"
  shows "trees \<noteq> []" and "\<forall>t\<in>set trees. treedef t = treedef (hd trees)"
    and "sf = (hd trees)\<lparr>leaves := stacked_leaves trees\<rparr>"
proof -
  obtain t ts where ts: "trees = t # ts"
    using assms by (cases trees) (auto simp: tree_map_stack_def)
  show "trees \<noteq> []" using ts by simp
  have all: "list_all (\<lambda>t'. treedef t' = treedef t) ts"
    using assms ts by (auto simp: tree_map_stack_def split: if_splits)
  then show "\<forall>t\<in>set trees. treedef t = treedef (hd trees)"
    using ts by (auto simp: list_all_iff)
  obtain stacked where st:
    "sequence_err (map (\<lambda>j. stack_with use_onp (map (\<lambda>t'. leaves t' ! j) trees))
                     [0..<length (leaves t)]) = Inr stacked"
    and sf: "sf = t\<lparr>leaves := stacked\<rparr>"
    using assms ts all by (auto simp: tree_map_stack_def split: sum.splits)
  have eq: "map (\<lambda>j. stack_with use_onp (map (\<lambda>t'. leaves t' ! j) trees))
              [0..<length (leaves t)]
          = map Inr stacked"
    using st by (rule sequence_err_InrD)
  have len: "length stacked = length (leaves t)"
    using arg_cong [OF eq, of length] by simp
  have nth: "stack_with use_onp (map (\<lambda>t'. leaves t' ! j) trees) = Inr (stacked ! j)"
    if "j < length (leaves t)" for j
    using arg_cong [OF eq, of "\<lambda>xs. xs ! j"] that len by simp
  have "stacked = map (\<lambda>j. Array (map (\<lambda>t'. leaves t' ! j) trees)) [0..<length (leaves t)]"
  proof (rule nth_equalityI)
    show "length stacked
            = length (map (\<lambda>j. Array (map (\<lambda>t'. leaves t' ! j) trees)) [0..<length (leaves t)])"
      using len by simp
  next
    fix j assume "j < length stacked"
    then have j: "j < length (leaves t)" using len by simp
    from nth [OF j] have "stacked ! j = Array (map (\<lambda>t'. leaves t' ! j) trees)"
      by (simp add: stack_with_def np_stack_InrD)
    then show "stacked ! j
                 = map (\<lambda>j. Array (map (\<lambda>t'. leaves t' ! j) trees)) [0..<length (leaves t)] ! j"
      using j by simp
  qed
  then show "sf = (hd trees)\<lparr>leaves := stacked_leaves trees\<rparr>"
    using sf ts by (simp add: stacked_leaves_def)
qed


lemma tree_map_stack_value:
  assumes "trees \<noteq> []" and "\<forall>t\<in>set trees. treedef t = treedef (hd trees)"
    and "\<forall>t\<in>set trees. map shape (leaves t) = map shape (leaves (hd trees))"
  shows "tree_map_stack use_onp trees = Inr ((hd trees)\<lparr>leaves := stacked_leaves trees\<rparr>)"
proof -
  define t where "t = hd trees"
  obtain ts where ts: "trees = t # ts"
    using assms(1) unfolding t_def by (cases trees) simp_all
  have sub: "set ts \<subseteq> set trees"
    unfolding ts by auto
  have td: "\<forall>t'\<in>set trees. treedef t' = treedef t"
    using assms(2) unfolding t_def .
  have sh: "\<forall>t'\<in>set trees. map shape (leaves t') = map shape (leaves t)"
    using assms(3) unfolding t_def .
  have all: "list_all (\<lambda>t'. treedef t' = treedef t) ts"
    unfolding list_all_iff using td sub by blast
  have stackj: "stack_with use_onp (map (\<lambda>t'. leaves t' ! j) trees)
                  = Inr (Array (map (\<lambda>t'. leaves t' ! j) trees))"
    if j: "j < length (leaves t)" for j
  proof -
    have same: "shape (leaves t' ! j) = shape (leaves t ! j)" if m: "t' \<in> set trees" for t'
    proof -
      have e: "map shape (leaves t') = map shape (leaves t)"
        using sh m by blast
      have l: "length (leaves t') = length (leaves t)"
        using e by (rule map_eq_imp_length_eq)
      have "map shape (leaves t') ! j = map shape (leaves t) ! j"
        by (simp only: e)
      then show ?thesis
        using j l by simp
    qed
    have hd0: "hd (map (\<lambda>t'. leaves t' ! j) trees) = leaves t ! j"
      unfolding ts by simp
    have ne: "map (\<lambda>t'. leaves t' ! j) trees \<noteq> []"
      using assms(1) by simp
    have "\<forall>a\<in>set (map (\<lambda>t'. leaves t' ! j) trees).
            shape a = shape (hd (map (\<lambda>t'. leaves t' ! j) trees))"
      unfolding hd0 using same by auto
    with ne show ?thesis
      unfolding stack_with_def by (rule np_stack_same_shape)
  qed
  have seq: "sequence_err (map (\<lambda>j. stack_with use_onp (map (\<lambda>t'. leaves t' ! j) trees))
                        [0..<length (leaves t)])
          = Inr (map (\<lambda>j. Array (map (\<lambda>t'. leaves t' ! j) trees)) [0..<length (leaves t)])"
  proof (rule sequence_err_map_Inr, rule ballI)
    fix j assume "j \<in> set [0..<length (leaves t)]"
    then have "j < length (leaves t)" by simp
    then show "stack_with use_onp (map (\<lambda>t'. leaves t' ! j) trees)
                 = Inr (Array (map (\<lambda>t'. leaves t' ! j) trees))"
      by (rule stackj)
  qed
  have "tree_map_stack use_onp (t # ts)
          = (case sequence_err
                    (map (\<lambda>j. stack_with use_onp (map (\<lambda>t'. leaves t' ! j) (t # ts)))
                       [0..<length (leaves t)]) of
               Inl e \<Rightarrow> Inl e
             | Inr stacked \<Rightarrow> Inr (t\<lparr>leaves := stacked\<rparr>))"
    using all by (simp add: tree_map_stack_def)
  then have "tree_map_stack use_onp trees
          = Inr (t\<lparr>leaves := map (\<lambda>j. Array (map (\<lambda>t'. leaves t' ! j) trees))
                                [0..<length (leaves t)]\<rparr>)"
    unfolding ts [symmetric] seq by simp
  then show ?thesis
    unfolding stacked_leaves_def t_def .
qed

lemma canonical_instance_inj:
  "map (\<lambda>v. canonical_instance (var_type v)) vs = map (\<lambda>v. canonical_instance (var_type v)) ws
     \<longleftrightarrow> map var_type vs = map var_type ws"
proof -
  have "canonical_instance S = canonical_instance T \<longleftrightarrow> S = T" for S T
    by (auto simp: canonical_instance_def)
  then show ?thesis
    by (auto simp: list_eq_iff_nth_eq)
qed

lemma treedef_anonymized_types:
  assumes "treedef (anonymize_variables f) = treedef (anonymize_variables g)"
  shows "map var_type (variables f) = map var_type (variables g)"
  using assms by (simp add: treedef_def anonymize_variables_def canonical_instance_inj)

lemma treedef_anonymized_iff:
  "treedef (anonymize_variables f) = treedef (anonymize_variables g) \<longleftrightarrow>
     factor_type f = factor_type g
     \<and> map var_type (variables f) = map var_type (variables g)
     \<and> get_residual_dim f = get_residual_dim g
     \<and> length (leaves f) = length (leaves g)"
  by (auto simp: treedef_def anonymize_variables_def canonical_instance_inj)

lemma anonymize_variables_simps:
  "leaves (anonymize_variables f) = leaves f"
  "factor_type (anonymize_variables f) = factor_type f"
  "get_residual_dim (anonymize_variables f) = get_residual_dim f"
  "length (variables (anonymize_variables f)) = length (variables f)"
  by (simp_all add: anonymize_variables_def)

lemma length_storage_row:
  "length (storage_row md v) = get_parameter_dim (var_type v)"
  by (simp add: storage_row_def length_arange)

lemma make_after_stacking:
  assumes ne: "factors \<noteq> []"
    and st: "tree_map_stack use_onp (map anonymize_variables factors)
               = Inr ((anonymize_variables (hd factors))
                        \<lparr>leaves := stacked_leaves (map anonymize_variables factors)\<rparr>)"
    and ty: "\<forall>f\<in>set factors.
               map var_type (variables f) = map var_type (variables (hd factors))"
    and md: "\<forall>f\<in>set factors. \<forall>v\<in>set (variables f). index_from_variable md v \<noteq> None"
  shows "make factors md use_onp = Inr (make_result factors md)"
proof -
  let ?n = "length (variables (hd factors))"
  let ?sf = "(anonymize_variables (hd factors))
               \<lparr>leaves := stacked_leaves (map anonymize_variables factors)\<rparr>"
  let ?L = "map (\<lambda>i. map (\<lambda>f. storage_row md (variables f ! i)) factors) [0..<?n]"
  have nsf: "length (variables ?sf) = ?n"
    by (simp add: anonymize_variables_def)
  have loop: "make_loop factors md (replicate ?n []) = Inr ?L"
    using ne ty md by (rule make_loop_value)
  have rowlen: "length row = get_parameter_dim (var_type (variables (hd factors) ! i))"
    if i: "i < ?n" and row: "row \<in> set (?L ! i)" for i row
  proof -
    from i row obtain f where f: "f \<in> set factors" "row = storage_row md (variables f ! i)"
      by auto
    have e: "map var_type (variables f) = map var_type (variables (hd factors))"
      using ty f(1) by blast
    have l: "length (variables f) = ?n"
      using e by (rule map_eq_imp_length_eq)
    have "map var_type (variables f) ! i = map var_type (variables (hd factors)) ! i"
      by (simp only: e)
    then have "var_type (variables f ! i) = var_type (variables (hd factors) ! i)"
      using i l by simp
    then show ?thesis
      by (simp add: f(2) length_storage_row)
  qed
  have stacked: "sequence_err (map onp_array ?L) = Inr ?L"
  proof -
    have "\<forall>a\<in>set ?L. onp_array a = Inr (id a)"
    proof
      fix a assume "a \<in> set ?L"
      then obtain i where i: "i < ?n" "a = ?L ! i" by auto
      then have "\<forall>row\<in>set a. length row
                   = get_parameter_dim (var_type (variables (hd factors) ! i))"
        using rowlen by blast
      then have "onp_array a = Inr a" by (rule onp_array_regular)
      then show "onp_array a = Inr (id a)" by simp
    qed
    then have "sequence_err (map onp_array ?L) = Inr (map id ?L)"
      by (rule sequence_err_map_Inr)
    then show ?thesis by simp
  qed
  have init: "FactorStack_init \<lparr>num_factors = length factors, factor = ?sf, value_indices = ?L\<rparr>
                = Inr \<lparr>num_factors = length factors, factor = ?sf, value_indices = ?L\<rparr>"
    by (simp add: FactorStack_init_def anonymize_variables_def)
  show ?thesis
    unfolding make_def st sum.case nsf loop stacked init make_result_def
    by (rule refl)
qed

lemma hd_map_anonymize:
  "factors \<noteq> [] \<Longrightarrow> hd (map anonymize_variables factors) = anonymize_variables (hd factors)"
  by (rule hd_map)

lemma make_value:
  assumes ne: "factors \<noteq> []"
    and td: "\<forall>f\<in>set factors.
               treedef (anonymize_variables f) = treedef (anonymize_variables (hd factors))"
    and sh: "\<forall>f\<in>set factors. map shape (leaves f) = map shape (leaves (hd factors))"
    and md: "\<forall>f\<in>set factors. \<forall>v\<in>set (variables f). index_from_variable md v \<noteq> None"
  shows "make factors md use_onp = Inr (make_result factors md)"
proof -
  let ?trees = "map anonymize_variables factors"
  have hd0: "hd ?trees = anonymize_variables (hd factors)"
    using ne by (rule hd_map_anonymize)
  have t1: "?trees \<noteq> []" using ne by simp
  have t2: "\<forall>t\<in>set ?trees. treedef t = treedef (hd ?trees)"
    unfolding hd0 using td by auto
  have t3: "\<forall>t\<in>set ?trees. map shape (leaves t) = map shape (leaves (hd ?trees))"
    unfolding hd0 using sh by (auto simp: anonymize_variables_simps)
  have st: "tree_map_stack use_onp ?trees
              = Inr ((anonymize_variables (hd factors))\<lparr>leaves := stacked_leaves ?trees\<rparr>)"
    using tree_map_stack_value [OF t1 t2 t3, of use_onp] unfolding hd0 .
  have ty: "\<forall>f\<in>set factors.
              map var_type (variables f) = map var_type (variables (hd factors))"
    using td treedef_anonymized_types by blast
  show ?thesis
    using ne st ty md by (rule make_after_stacking)
qed

lemma make_InrD:
  assumes "make factors md use_onp = Inr stack"
  shows "factors \<noteq> []"
    and "\<forall>f\<in>set factors.
           map var_type (variables f) = map var_type (variables (hd factors))"
    and "\<forall>f\<in>set factors. \<forall>v\<in>set (variables f). index_from_variable md v \<noteq> None"
    and "stack = make_result factors md"
proof -
  let ?trees = "map anonymize_variables factors"
  obtain sf where sf: "tree_map_stack use_onp ?trees = Inr sf"
    using assms by (cases "tree_map_stack use_onp ?trees") (simp_all add: make_def)
  have t1: "?trees \<noteq> []"
    using sf by (rule tree_map_stack_InrD(1))
  then show ne: "factors \<noteq> []" by simp
  have hd0: "hd ?trees = anonymize_variables (hd factors)"
    using ne by (rule hd_map_anonymize)
  have "\<forall>t\<in>set ?trees. treedef t = treedef (hd ?trees)"
    using sf by (rule tree_map_stack_InrD(2))
  then have td: "\<forall>f\<in>set factors.
                   treedef (anonymize_variables f) = treedef (anonymize_variables (hd factors))"
    unfolding hd0 by simp
  then show ty: "\<forall>f\<in>set factors.
                   map var_type (variables f) = map var_type (variables (hd factors))"
    using treedef_anonymized_types by blast
  have sfv: "sf = (anonymize_variables (hd factors))\<lparr>leaves := stacked_leaves ?trees\<rparr>"
    using tree_map_stack_InrD(3) [OF sf] unfolding hd0 .
  obtain L where L: "make_loop factors md (replicate (length (variables sf)) []) = Inr L"
    using assms sf
    by (cases "make_loop factors md (replicate (length (variables sf)) [])")
       (simp_all add: make_def)
  show md: "\<forall>f\<in>set factors. \<forall>v\<in>set (variables f). index_from_variable md v \<noteq> None"
  proof (intro ballI notI)
    fix f v
    assume "f \<in> set factors" "v \<in> set (variables f)" "index_from_variable md v = None"
    then have "\<exists>e. make_loop factors md (replicate (length (variables sf)) []) = Inl e"
      by (rule make_loop_missing_key)
    with L show False by simp
  qed
  have "make factors md use_onp = Inr (make_result factors md)"
    using ne sf [unfolded sfv] ty md by (rule make_after_stacking)
  with assms show "stack = make_result factors md" by simp
qed

lemmas pose_point_defs = R2_def point_p_def sight_ap_def pose_point_metadata_def

lemma between_stack_value:
  "make [between_ab, between_bc] pose_metadata use_onp
     = Inr \<lparr>num_factors = 2,
            factor = \<lparr>factor_type = 7,
                       variables = [canonical_instance SE2, canonical_instance SE2],
                       leaves = [Array [Array [Scalar 1, Scalar 2], Array [Scalar 3, Scalar 4]]],
                       get_residual_dim = 2\<rparr>,
            value_indices = [[[0, 1, 2, 3], [4, 5, 6, 7]], [[4, 5, 6, 7], [8, 9, 10, 11]]]\<rparr>"
proof -
  have ne: "[between_ab, between_bc] \<noteq> []" by simp
  have td: "\<forall>f\<in>set [between_ab, between_bc].
              treedef (anonymize_variables f)
                = treedef (anonymize_variables (hd [between_ab, between_bc]))"
    by (simp add: treedef_def anonymize_variables_def pose_defs)
  have sh: "\<forall>f\<in>set [between_ab, between_bc].
              map shape (leaves f) = map shape (leaves (hd [between_ab, between_bc]))"
    by (simp add: pose_defs)
  have md: "\<forall>f\<in>set [between_ab, between_bc]. \<forall>v\<in>set (variables f).
              index_from_variable pose_metadata v \<noteq> None"
    by (simp add: pose_defs)
  have "make [between_ab, between_bc] pose_metadata use_onp
          = Inr (make_result [between_ab, between_bc] pose_metadata)"
    using ne td sh md by (rule make_value)
  also have "make_result [between_ab, between_bc] pose_metadata
          = \<lparr>num_factors = 2,
             factor = \<lparr>factor_type = 7,
                        variables = [canonical_instance SE2, canonical_instance SE2],
                        leaves = [Array [Array [Scalar 1, Scalar 2], Array [Scalar 3, Scalar 4]]],
                        get_residual_dim = 2\<rparr>,
             value_indices = [[[0, 1, 2, 3], [4, 5, 6, 7]], [[4, 5, 6, 7], [8, 9, 10, 11]]]\<rparr>"
    by (simp add: make_result_def stacked_leaves_def anonymize_variables_def storage_row_def
        arange_def pose_defs upt_rec_numeral upto_rec1)
  finally show ?thesis .
qed

lemma make_loop_assertion:
  "make_loop [between_ab, sight_ap] pose_point_metadata [[], []] = Inl VariableTypeMismatch"
  by (simp add: make_loop_def make_visit_def enumerate_eq_zip isinstance_def arange_def
      pose_defs pose_point_defs upt_rec_numeral upto_rec1)

text \<open>
  Claim C8. Whenever \<open>make\<close> returns a stack, the factor sequence is not empty, the
  stack has one index array per operand slot, and the array of slot \<open>s\<close> has one row per
  factor, each as long as the storage dimension of the slot's operand class; the row of
  factor \<open>f\<close> is the contiguous range from the storage offset of its operand in the
  storage metadata up to offset plus storage dimension minus one.
\<close>

theorem make_value_indices:
  assumes "make factors md use_onp = Inr stack"
  shows "factors \<noteq> []
       \<and> num_factors stack = length factors
       \<and> length (value_indices stack) = length (variables (hd factors))
       \<and> (\<forall>s<length (variables (hd factors)).
            length (value_indices stack ! s) = length factors
            \<and> (\<forall>f<length factors.
                 length (value_indices stack ! s ! f)
                   = get_parameter_dim (var_type (variables (hd factors) ! s))
                 \<and> (\<exists>offset.
                       index_from_variable md (variables (factors ! f) ! s) = Some offset
                       \<and> value_indices stack ! s ! f
                           = [offset..offset
                                + int (get_parameter_dim
                                         (var_type (variables (factors ! f) ! s))) - 1])))"
proof -
  let ?n = "length (variables (hd factors))"
  have ne: "factors \<noteq> []"
    and ty: "\<forall>f\<in>set factors.
               map var_type (variables f) = map var_type (variables (hd factors))"
    and md: "\<forall>f\<in>set factors. \<forall>v\<in>set (variables f). index_from_variable md v \<noteq> None"
    and st: "stack = make_result factors md"
    using make_InrD [OF assms] by blast+
  have vi: "value_indices stack
              = map (\<lambda>i. map (\<lambda>f. storage_row md (variables f ! i)) factors) [0..<?n]"
    by (simp add: st make_result_def)
  have row: "length (value_indices stack ! s ! f)
               = get_parameter_dim (var_type (variables (hd factors) ! s))
             \<and> (\<exists>offset.
                   index_from_variable md (variables (factors ! f) ! s) = Some offset
                   \<and> value_indices stack ! s ! f
                       = [offset..offset
                            + int (get_parameter_dim
                                     (var_type (variables (factors ! f) ! s))) - 1])"
    if s: "s < ?n" and f: "f < length factors" for s f
  proof -
    have mem: "factors ! f \<in> set factors" using f by simp
    have e: "map var_type (variables (factors ! f)) = map var_type (variables (hd factors))"
      using ty mem by blast
    have l: "length (variables (factors ! f)) = ?n"
      using e by (rule map_eq_imp_length_eq)
    have "map var_type (variables (factors ! f)) ! s = map var_type (variables (hd factors)) ! s"
      by (simp only: e)
    then have t: "var_type (variables (factors ! f) ! s) = var_type (variables (hd factors) ! s)"
      using s l by simp
    have "variables (factors ! f) ! s \<in> set (variables (factors ! f))"
      using s l by simp
    then obtain offset where
      off: "index_from_variable md (variables (factors ! f) ! s) = Some offset"
      using md mem by blast
    have v: "value_indices stack ! s ! f = storage_row md (variables (factors ! f) ! s)"
      using s f by (simp add: vi)
    show ?thesis
      using off t by (simp add: v length_storage_row) (simp add: storage_row_def arange_def)
  qed
  show ?thesis
    using ne row by (simp add: st make_result_def)
qed

theorem make_value_indices_witness:
  "\<exists>stack. make [between_ab, between_bc] pose_metadata True = Inr stack
     \<and> num_factors stack = 2
     \<and> length (value_indices stack) = 2
     \<and> length (value_indices stack ! 1) = 2
     \<and> length (value_indices stack ! 1 ! 0) = 4
     \<and> value_indices stack ! 1 ! 0 = [4, 5, 6, 7]"
proof -
  let ?fs = "[between_ab, between_bc]"
  obtain stack where m: "make ?fs pose_metadata True = Inr stack"
    using between_stack_value [of True] by simp
  note T = make_value_indices [OF m]
  have nf: "num_factors stack = length ?fs"
    and nv: "length (value_indices stack) = length (variables (hd ?fs))"
    and slots: "\<forall>s<length (variables (hd ?fs)).
            length (value_indices stack ! s) = length ?fs
            \<and> (\<forall>f<length ?fs.
                 length (value_indices stack ! s ! f)
                   = get_parameter_dim (var_type (variables (hd ?fs) ! s))
                 \<and> (\<exists>offset.
                       index_from_variable pose_metadata (variables (?fs ! f) ! s) = Some offset
                       \<and> value_indices stack ! s ! f
                           = [offset..offset
                                + int (get_parameter_dim
                                         (var_type (variables (?fs ! f) ! s))) - 1]))"
    using T by blast+
  have s: "1 < length (variables (hd ?fs))"
    by (simp add: pose_defs)
  have f: "0 < length ?fs"
    by simp
  have l1: "length (value_indices stack ! 1) = length ?fs"
    using slots s by blast
  have l10: "length (value_indices stack ! 1 ! 0)
               = get_parameter_dim (var_type (variables (hd ?fs) ! 1))"
    using slots s f by blast
  obtain offset where
    o: "index_from_variable pose_metadata (variables (?fs ! 0) ! 1) = Some offset"
    and r: "value_indices stack ! 1 ! 0
              = [offset..offset
                   + int (get_parameter_dim (var_type (variables (?fs ! 0) ! 1))) - 1]"
    using slots s f by blast
  have "index_from_variable pose_metadata (variables (?fs ! 0) ! 1) = Some 4"
    by (simp add: pose_defs)
  with o have o4: "offset = 4" by simp
  have d: "get_parameter_dim (var_type (variables (?fs ! 0) ! 1)) = 4"
    by (simp add: pose_defs)
  have d': "get_parameter_dim (var_type (variables (hd ?fs) ! 1)) = 4"
    by (simp add: pose_defs)
  have n: "length (variables (hd ?fs)) = 2"
    by (simp add: pose_defs)
  have row: "value_indices stack ! 1 ! 0 = [4, 5, 6, 7]"
    unfolding r o4 d by (simp add: upto_rec1)
  have "num_factors stack = 2" using nf by simp
  moreover have "length (value_indices stack) = 2" using nv n by simp
  moreover have "length (value_indices stack ! 1) = 2" using l1 by simp
  moreover have "length (value_indices stack ! 1 ! 0) = 4" using l10 d' by simp
  ultimately show ?thesis using m row by blast
qed



subsection \<open>Batched evaluation against evaluation factor by factor\<close>

lemma take_index_in_range:
  assumes "0 \<le> i" and "i < int (length xs)"
  shows "take_index xs i = Inr (xs ! nat i)"
  using assms by (simp add: take_index_def Let_def)

lemma py_slice_in_range:
  assumes "0 \<le> off" and "off + int d \<le> int (length xs)"
  shows "py_slice xs off (off + int d) = take d (drop (nat off) xs)"
proof -
  have a: "\<not> off < 0" "\<not> off + int d < 0" using assms by simp_all
  have b: "min off (int (length xs)) = off" "min (off + int d) (int (length xs)) = off + int d"
    using assms by simp_all
  show ?thesis
    unfolding py_slice_def Let_def using a by (simp add: b)
qed

lemma take_drop_nth:
  assumes "n + d \<le> length xs"
  shows "take d (drop n xs) = map (\<lambda>k. xs ! (n + k)) [0..<d]"
proof (rule nth_equalityI)
  show "length (take d (drop n xs)) = length (map (\<lambda>k. xs ! (n + k)) [0..<d])"
    using assms by simp
next
  fix i assume "i < length (take d (drop n xs))"
  then have "i < d" by simp
  then show "take d (drop n xs) ! i = map (\<lambda>k. xs ! (n + k)) [0..<d] ! i"
    using assms by simp
qed

lemma gather_row:
  assumes "0 \<le> off" and "off + int d \<le> int (length xs)"
  shows "sequence_err (map (take_index xs) (arange off (off + int d)))
           = Inr (py_slice xs off (off + int d))"
proof -
  have each: "\<forall>i\<in>set (arange off (off + int d)). take_index xs i = Inr (xs ! nat i)"
  proof
    fix i assume "i \<in> set (arange off (off + int d))"
    then obtain k where "k < d" "i = off + int k"
      unfolding arange_map by auto
    then have "0 \<le> i" "i < int (length xs)"
      using assms by simp_all
    then show "take_index xs i = Inr (xs ! nat i)"
      by (rule take_index_in_range)
  qed
  have "sequence_err (map (take_index xs) (arange off (off + int d)))
          = Inr (map (\<lambda>i. xs ! nat i) (arange off (off + int d)))"
    using each by (rule sequence_err_map_Inr)
  also have "map (\<lambda>i. xs ! nat i) (arange off (off + int d))
               = map (\<lambda>k. xs ! (nat off + k)) [0..<d]"
    unfolding arange_map using assms(1) by (simp add: nat_add_distrib o_def)
  also have "\<dots> = take d (drop (nat off) xs)"
    using assms by (intro take_drop_nth [symmetric]) linarith
  also have "\<dots> = py_slice xs off (off + int d)"
    using assms by (rule py_slice_in_range [symmetric])
  finally show ?thesis .
qed

lemma var_type_canonical_instance: "var_type (canonical_instance T) = T"
  by (simp add: canonical_instance_def)

lemma slot_type_eq:
  assumes "map var_type (variables f) = map var_type (variables g)" and "i < length (variables g)"
  shows "var_type (variables f ! i) = var_type (variables g ! i)"
    and "i < length (variables f)"
proof -
  have l: "length (variables f) = length (variables g)"
    using assms(1) by (rule map_eq_imp_length_eq)
  show "i < length (variables f)" using l assms(2) by simp
  have "map var_type (variables f) ! i = map var_type (variables g) ! i"
    by (simp only: assms(1))
  then show "var_type (variables f ! i) = var_type (variables g ! i)"
    using l assms(2) by simp
qed

lemma storage_gather_slot:
  assumes ty: "\<forall>f\<in>set factors.
                 map var_type (variables f) = map var_type (variables (hd factors))"
    and mdc: "\<forall>f\<in>set factors. \<forall>v\<in>set (variables f). index_from_variable md v \<noteq> None"
    and rng: "\<forall>f\<in>set factors. \<forall>v\<in>set (variables f). \<forall>off.
                index_from_variable md v = Some off \<longrightarrow>
                0 \<le> off \<and> off + int (get_parameter_dim (var_type v)) \<le> int (length xs)"
    and i: "i < length (variables (hd factors))"
  shows "storage_gather xs (map (\<lambda>f. storage_row md (variables f ! i)) factors)
           = Inr (map (\<lambda>f. py_slice xs (the (index_from_variable md (variables f ! i)))
                            (the (index_from_variable md (variables f ! i))
                             + int (get_parameter_dim (var_type (variables f ! i)))))
                    factors)"
proof -
  have "\<forall>f\<in>set factors.
          sequence_err (map (take_index xs) (storage_row md (variables f ! i)))
            = Inr (py_slice xs (the (index_from_variable md (variables f ! i)))
                     (the (index_from_variable md (variables f ! i))
                      + int (get_parameter_dim (var_type (variables f ! i)))))"
  proof
    fix f assume f: "f \<in> set factors"
    have e: "map var_type (variables f) = map var_type (variables (hd factors))"
      using ty f by blast
    have "i < length (variables f)" using e i by (rule slot_type_eq(2))
    then have mem: "variables f ! i \<in> set (variables f)" by simp
    then obtain off where off: "index_from_variable md (variables f ! i) = Some off"
      using mdc f by blast
    have r: "0 \<le> off \<and> off + int (get_parameter_dim (var_type (variables f ! i)))
               \<le> int (length xs)"
      using rng f mem off by blast
    have "sequence_err (map (take_index xs)
                          (arange off (off + int (get_parameter_dim
                                                    (var_type (variables f ! i))))))
            = Inr (py_slice xs off
                     (off + int (get_parameter_dim (var_type (variables f ! i)))))"
      using r by (intro gather_row) simp_all
    then show "sequence_err (map (take_index xs) (storage_row md (variables f ! i)))
            = Inr (py_slice xs (the (index_from_variable md (variables f ! i)))
                     (the (index_from_variable md (variables f ! i))
                      + int (get_parameter_dim (var_type (variables f ! i)))))"
      by (simp add: storage_row_def off)
  qed
  then have "sequence_err
               (map (\<lambda>f. sequence_err (map (take_index xs) (storage_row md (variables f ! i))))
                  factors)
          = Inr (map (\<lambda>f. py_slice xs (the (index_from_variable md (variables f ! i)))
                            (the (index_from_variable md (variables f ! i))
                             + int (get_parameter_dim (var_type (variables f ! i)))))
                    factors)"
    by (rule sequence_err_map_Inr)
  then show ?thesis
    by (simp add: storage_gather_def o_def)
qed

lemma values_stacked_make_result:
  assumes ty: "\<forall>f\<in>set factors.
                 map var_type (variables f) = map var_type (variables (hd factors))"
    and mdc: "\<forall>f\<in>set factors. \<forall>v\<in>set (variables f). index_from_variable md v \<noteq> None"
    and rng: "\<forall>f\<in>set factors. \<forall>v\<in>set (variables f). \<forall>off.
                index_from_variable md v = Some off \<longrightarrow>
                0 \<le> off \<and> off + int (get_parameter_dim (var_type v))
                             \<le> int (length (storage assignments'))"
    and smd: "storage_metadata assignments' = md"
  shows "values_stacked K (make_result factors md) assignments'
           = Inr (map (\<lambda>i. map (\<lambda>f. operand_value K assignments' (variables f ! i)) factors)
                    [0..<length (variables (hd factors))])"
proof -
  let ?n = "length (variables (hd factors))"
  let ?row = "\<lambda>i. map (\<lambda>f. storage_row md (variables f ! i)) factors"
  let ?can = "\<lambda>i. canonical_instance (var_type (variables (hd factors) ! i))"
  have z: "zip (variables (factor (make_result factors md)))
               (value_indices (make_result factors md))
             = map (\<lambda>i. (?can i, ?row i)) [0..<?n]"
    by (rule nth_equalityI) (simp_all add: make_result_def anonymize_variables_def)
  have slot: "(case storage_gather (storage assignments') (?row i) of
                 Inl e \<Rightarrow> Inl e
               | Inr gathered \<Rightarrow> Inr (map (unflatten K (var_type (?can i))) gathered))
              = Inr (map (\<lambda>f. operand_value K assignments' (variables f ! i)) factors)"
    if i: "i < ?n" for i
  proof -
    have g: "storage_gather (storage assignments') (?row i)
               = Inr (map (\<lambda>f. py_slice (storage assignments')
                                  (the (index_from_variable md (variables f ! i)))
                                  (the (index_from_variable md (variables f ! i))
                                   + int (get_parameter_dim (var_type (variables f ! i)))))
                        factors)"
      using ty mdc rng i by (rule storage_gather_slot)
    have t: "var_type (variables f ! i) = var_type (variables (hd factors) ! i)"
      if "f \<in> set factors" for f
      using ty that i slot_type_eq(1) by blast
    show ?thesis
      unfolding g sum.case var_type_canonical_instance
      using t by (simp add: operand_value_def smd o_def)
  qed
  have "sequence_err
          (map (\<lambda>i. case storage_gather (storage assignments') (?row i) of
                      Inl e \<Rightarrow> Inl e
                    | Inr gathered \<Rightarrow> Inr (map (unflatten K (var_type (?can i))) gathered))
             [0..<?n])
        = Inr (map (\<lambda>i. map (\<lambda>f. operand_value K assignments' (variables f ! i)) factors)
                 [0..<?n])"
    by (rule sequence_err_map_Inr) (use slot in simp)
  then show ?thesis
    unfolding values_stacked_def z by (simp add: o_def)
qed

lemma make_InrD_treedef:
  assumes "make factors md use_onp = Inr stack"
  shows "\<forall>f\<in>set factors.
           treedef (anonymize_variables f) = treedef (anonymize_variables (hd factors))"
proof -
  let ?trees = "map anonymize_variables factors"
  obtain sf where sf: "tree_map_stack use_onp ?trees = Inr sf"
    using assms by (cases "tree_map_stack use_onp ?trees") (simp_all add: make_def)
  have ne: "factors \<noteq> []"
    using tree_map_stack_InrD(1) [OF sf] by simp
  have hd0: "hd ?trees = anonymize_variables (hd factors)"
    using ne by (rule hd_map_anonymize)
  have "\<forall>t\<in>set ?trees. treedef t = treedef (hd ?trees)"
    using sf by (rule tree_map_stack_InrD(2))
  then show ?thesis
    unfolding hd0 by simp
qed

lemma factor_slice_make_result:
  assumes td: "\<forall>f\<in>set factors.
                 treedef (anonymize_variables f) = treedef (anonymize_variables (hd factors))"
    and b: "b < length factors"
  shows "factor_slice (factor (make_result factors md)) b = anonymize_variables (factors ! b)"
proof -
  let ?trees = "map anonymize_variables factors"
  have ne: "factors \<noteq> []" using b by auto
  have hd0: "hd ?trees = anonymize_variables (hd factors)"
    using ne by (rule hd_map_anonymize)
  have mem: "factors ! b \<in> set factors" using b by simp
  have e: "treedef (anonymize_variables (factors ! b)) = treedef (anonymize_variables (hd factors))"
    using td mem by blast
  have e1: "factor_type (factors ! b) = factor_type (hd factors)"
    and e2: "map var_type (variables (factors ! b)) = map var_type (variables (hd factors))"
    and e3: "get_residual_dim (factors ! b) = get_residual_dim (hd factors)"
    and e4: "length (leaves (factors ! b)) = length (leaves (hd factors))"
    using e unfolding treedef_anonymized_iff by blast+
  have lv: "map (\<lambda>a. index_leaf a b) (stacked_leaves ?trees) = leaves (factors ! b)"
  proof (rule nth_equalityI)
    show "length (map (\<lambda>a. index_leaf a b) (stacked_leaves ?trees)) = length (leaves (factors ! b))"
      unfolding stacked_leaves_def hd0 by (simp add: anonymize_variables_simps e4)
  next
    fix j assume "j < length (map (\<lambda>a. index_leaf a b) (stacked_leaves ?trees))"
    then have j: "j < length (leaves (hd factors))"
      unfolding stacked_leaves_def hd0 by (simp add: anonymize_variables_simps)
    have "map (\<lambda>a. index_leaf a b) (stacked_leaves ?trees) ! j
            = index_leaf (Array (map (\<lambda>t. leaves t ! j) ?trees)) b"
      unfolding stacked_leaves_def hd0 using j by (simp add: anonymize_variables_simps)
    also have "\<dots> = leaves (factors ! b) ! j"
      using b by (simp add: anonymize_variables_simps)
    finally show "map (\<lambda>a. index_leaf a b) (stacked_leaves ?trees) ! j = leaves (factors ! b) ! j" .
  qed
  have vs: "variables (anonymize_variables (hd factors))
              = variables (anonymize_variables (factors ! b))"
    using e2 by (simp add: anonymize_variables_def canonical_instance_inj)
  show ?thesis
  proof (rule FactorBase.equality)
    show "factor_type (factor_slice (factor (make_result factors md)) b)
            = factor_type (anonymize_variables (factors ! b))"
      by (simp add: factor_slice_def make_result_def anonymize_variables_simps e1)
    show "variables (factor_slice (factor (make_result factors md)) b)
            = variables (anonymize_variables (factors ! b))"
      using vs by (simp add: factor_slice_def make_result_def)
    show "leaves (factor_slice (factor (make_result factors md)) b)
            = leaves (anonymize_variables (factors ! b))"
      using lv by (simp add: factor_slice_def make_result_def anonymize_variables_simps)
    show "get_residual_dim (factor_slice (factor (make_result factors md)) b)
            = get_residual_dim (anonymize_variables (factors ! b))"
      by (simp add: factor_slice_def make_result_def anonymize_variables_simps e3)
    show "FactorBase.more (factor_slice (factor (make_result factors md)) b)
            = FactorBase.more (anonymize_variables (factors ! b))"
      by simp
  qed
qed

lemma vmap_axis_size_make_result:
  assumes nonvoid: "variables (hd factors) \<noteq> [] \<or> leaves (hd factors) \<noteq> []"
    and ne: "factors \<noteq> []"
  shows "vmap_axis_size (factor (make_result factors md))
           (map (\<lambda>i. map (g i) factors) [0..<length (variables (hd factors))])
         = Inr (length factors)"
proof -
  let ?trees = "map anonymize_variables factors"
  let ?n = "length (variables (hd factors))"
  let ?m = "length (leaves (hd factors))"
  have hd0: "hd ?trees = anonymize_variables (hd factors)"
    using ne by (rule hd_map_anonymize)
  have l: "map leading (leaves (factor (make_result factors md)))
             = replicate ?m (Some (length factors))"
    by (rule nth_equalityI)
       (simp_all add: make_result_def stacked_leaves_def hd0 anonymize_variables_simps)
  have v: "map (\<lambda>vs. Some (length vs)) (map (\<lambda>i. map (g i) factors) [0..<?n])
             = replicate ?n (Some (length factors))"
    by (rule nth_equalityI) simp_all
  have sizes: "map leading (leaves (factor (make_result factors md)))
                 @ map (\<lambda>vs. Some (length vs)) (map (\<lambda>i. map (g i) factors) [0..<?n])
               = replicate (?m + ?n) (Some (length factors))"
    unfolding l v by (simp add: replicate_add)
  have pos: "0 < ?m + ?n" using nonvoid by auto
  then obtain k where k: "?m + ?n = Suc k" by (cases "?m + ?n") simp_all
  show ?thesis
    unfolding vmap_axis_size_def sizes k by (simp add: list_all_iff)
qed

lemma vmap_factor_make_result:
  assumes td: "\<forall>f\<in>set factors.
                 treedef (anonymize_variables f) = treedef (anonymize_variables (hd factors))"
    and nonvoid: "variables (hd factors) \<noteq> [] \<or> leaves (hd factors) \<noteq> []"
    and ne: "factors \<noteq> []"
    and anon: "\<forall>f vals. fn (anonymize_variables f) vals = fn f vals"
  shows "vmap_factor fn (factor (make_result factors md))
           (map (\<lambda>i. map (\<lambda>f. val (variables f ! i)) factors)
              [0..<length (variables (hd factors))])
         = Inr (map (\<lambda>f. fn f (map val (variables f))) factors)"
proof -
  let ?n = "length (variables (hd factors))"
  let ?vals = "map (\<lambda>i. map (\<lambda>f. val (variables f ! i)) factors) [0..<?n]"
  have size: "vmap_axis_size (factor (make_result factors md)) ?vals = Inr (length factors)"
    using nonvoid ne by (rule vmap_axis_size_make_result)
  have each: "fn (factor_slice (factor (make_result factors md)) b) (map (\<lambda>vs. vs ! b) ?vals)
                = fn (factors ! b) (map val (variables (factors ! b)))"
    if b: "b < length factors" for b
  proof -
    have s: "factor_slice (factor (make_result factors md)) b = anonymize_variables (factors ! b)"
      using td b by (rule factor_slice_make_result)
    have mem: "factors ! b \<in> set factors" using b by simp
    have "map var_type (variables (factors ! b)) = map var_type (variables (hd factors))"
      using td mem treedef_anonymized_types by blast
    then have l: "length (variables (factors ! b)) = ?n"
      by (rule map_eq_imp_length_eq)
    have "map (\<lambda>vs. vs ! b) ?vals = map (\<lambda>i. val (variables (factors ! b) ! i)) [0..<?n]"
      using b by simp
    also have "\<dots> = map val (variables (factors ! b))"
      unfolding l [symmetric] by (rule nth_equalityI) simp_all
    finally show ?thesis
      unfolding s using anon by simp
  qed
  define F where
    "F = (\<lambda>b. fn (factor_slice (factor (make_result factors md)) b)
                (map (\<lambda>vs. vs ! b) ?vals))"
  have each': "F b = fn (factors ! b) (map val (variables (factors ! b)))"
    if "b < length factors" for b
    unfolding F_def using that by (rule each)
  have "map F [0..<length factors] = map (\<lambda>f. fn f (map val (variables f))) factors"
    by (rule nth_equalityI) (simp_all add: each')
  then show ?thesis
    unfolding vmap_factor_def size sum.case F_def by (rule arg_cong)
qed

lemma get_value_operand:
  assumes "index_from_variable (storage_metadata assignments') v \<noteq> None"
  shows "get_value K assignments' v = Inr (operand_value K assignments' v)"
  using assms by (auto simp: get_value_def operand_value_def)

lemma operand_values:
  assumes "\<forall>v\<in>set vs. index_from_variable (storage_metadata assignments') v \<noteq> None"
  shows "sequence_err (map (get_value K assignments') vs)
           = Inr (map (operand_value K assignments') vs)"
proof (rule sequence_err_map_Inr, rule ballI)
  fix v assume "v \<in> set vs"
  then have "index_from_variable (storage_metadata assignments') v \<noteq> None"
    using assms by blast
  then show "get_value K assignments' v = Inr (operand_value K assignments' v)"
    by (rule get_value_operand)
qed

lemma factor_residual_value:
  assumes "\<forall>v\<in>set (variables f). index_from_variable (storage_metadata assignments') v \<noteq> None"
  shows "factor_residual K assignments' f
           = Inr (factor_compute_residual_vector K f
                    (map (operand_value K assignments') (variables f)))"
  unfolding factor_residual_def operand_values [OF assms] by simp

lemma factor_jacobians_value:
  assumes "\<forall>v\<in>set (variables f). index_from_variable (storage_metadata assignments') v \<noteq> None"
  shows "factor_jacobians K assignments' f
           = Inr (factor_compute_residual_jacobians K f
                    (map (operand_value K assignments') (variables f)))"
  unfolding factor_jacobians_def operand_values [OF assms] by simp

lemma unzip_outputs_nonempty:
  assumes "outs \<noteq> []"
  shows "unzip_outputs outs = map (\<lambda>s. map (\<lambda>res. res ! s) outs) [0..<length (hd outs)]"
  using assms by (cases outs) (simp_all add: unzip_outputs_def)

text \<open>
  Claim C3. Let \<open>make\<close> have built the stack from the factors and the storage metadata
  of the assignments, let every operand's slice lie within the storage, let the factor
  have at least one operand or one array field, and let the residual and Jacobian
  methods of the factor class not depend on the identity of the operands. Then every
  factor can be evaluated on its own, and \<open>compute_residual_vector\<close> returns the
  individually computed residual vectors in factor order, and
  \<open>compute_residual_jacobian\<close> returns, for every operand slot, the individually computed
  Jacobian blocks of that slot in factor order.
\<close>

theorem stacked_evaluation_equals_individual:
  assumes mk: "make factors md use_onp = Inr stack"
    and smd: "storage_metadata assignments' = md"
    and rng: "\<forall>f\<in>set factors. \<forall>v\<in>set (variables f). \<forall>off.
                index_from_variable md v = Some off \<longrightarrow>
                0 \<le> off \<and> off + int (get_parameter_dim (var_type v))
                             \<le> int (length (storage assignments'))"
    and nonvoid: "variables (hd factors) \<noteq> [] \<or> leaves (hd factors) \<noteq> []"
    and anon_r: "\<forall>f vals. factor_compute_residual_vector K (anonymize_variables f) vals
                    = factor_compute_residual_vector K f vals"
    and anon_j: "\<forall>f vals. factor_compute_residual_jacobians K (anonymize_variables f) vals
                    = factor_compute_residual_jacobians K f vals"
  shows "\<exists>rs js.
           sequence_err (map (factor_residual K assignments') factors) = Inr rs
           \<and> compute_residual_vector K stack assignments' = Inr rs
           \<and> sequence_err (map (factor_jacobians K assignments') factors) = Inr js
           \<and> compute_residual_jacobian K stack assignments'
               = Inr (map (\<lambda>s. map (\<lambda>j. j ! s) js) [0..<length (hd js)])"
proof -
  let ?n = "length (variables (hd factors))"
  let ?vals = "map (\<lambda>i. map (\<lambda>f. operand_value K assignments' (variables f ! i)) factors)
                 [0..<?n]"
  let ?rs = "map (\<lambda>f. factor_compute_residual_vector K f
                         (map (operand_value K assignments') (variables f))) factors"
  let ?js = "map (\<lambda>f. factor_compute_residual_jacobians K f
                         (map (operand_value K assignments') (variables f))) factors"
  have ne: "factors \<noteq> []"
    and ty: "\<forall>f\<in>set factors.
               map var_type (variables f) = map var_type (variables (hd factors))"
    and mdc: "\<forall>f\<in>set factors. \<forall>v\<in>set (variables f). index_from_variable md v \<noteq> None"
    and st: "stack = make_result factors md"
    using make_InrD [OF mk] by blast+
  have td: "\<forall>f\<in>set factors.
              treedef (anonymize_variables f) = treedef (anonymize_variables (hd factors))"
    using mk by (rule make_InrD_treedef)
  have vals: "values_stacked K stack assignments' = Inr ?vals"
    unfolding st using ty mdc rng smd by (rule values_stacked_make_result)
  have vr: "vmap_factor (factor_compute_residual_vector K) (factor stack) ?vals = Inr ?rs"
    unfolding st using td nonvoid ne anon_r by (rule vmap_factor_make_result)
  have vj: "vmap_factor (factor_compute_residual_jacobians K) (factor stack) ?vals = Inr ?js"
    unfolding st using td nonvoid ne anon_j by (rule vmap_factor_make_result)
  have each: "\<forall>v\<in>set (variables f). index_from_variable (storage_metadata assignments') v \<noteq> None"
    if "f \<in> set factors" for f
    unfolding smd using mdc that by blast
  have ir: "sequence_err (map (factor_residual K assignments') factors) = Inr ?rs"
    by (rule sequence_err_map_Inr) (simp add: each factor_residual_value)
  have ij: "sequence_err (map (factor_jacobians K assignments') factors) = Inr ?js"
    by (rule sequence_err_map_Inr) (simp add: each factor_jacobians_value)
  have cr: "compute_residual_vector K stack assignments' = Inr ?rs"
    unfolding compute_residual_vector_def vals sum.case by (rule vr)
  have jne: "?js \<noteq> []" using ne by simp
  have cj: "compute_residual_jacobian K stack assignments'
              = Inr (map (\<lambda>s. map (\<lambda>j. j ! s) ?js) [0..<length (hd ?js)])"
    unfolding compute_residual_jacobian_def vals sum.case vj
      unzip_outputs_nonempty [OF jne] by (rule refl)
  show ?thesis
    using ir cr ij cj by blast
qed

theorem stacked_evaluation_equals_individual_witness:
  "\<exists>stack. make [between_ab, between_bc] pose_metadata True = Inr stack
     \<and> sequence_err (map (factor_residual pose_kernels pose_assignments)
                        [between_ab, between_bc]) = Inr [[10, 11], [20, 21]]
     \<and> compute_residual_vector pose_kernels stack pose_assignments = Inr [[10, 11], [20, 21]]
     \<and> compute_residual_jacobian pose_kernels stack pose_assignments
         = Inr [[[[-1, 0, 0], [0, -1, 0]], [[-1, 0, 0], [0, -1, 0]]],
                [[[1, 0, 0], [0, 1, 0]], [[1, 0, 0], [0, 1, 0]]]]"
proof -
  let ?fs = "[between_ab, between_bc]"
  obtain stack where mk: "make ?fs pose_metadata True = Inr stack"
    using between_stack_value [of True] by simp
  have smd: "storage_metadata pose_assignments = pose_metadata"
    by (simp add: pose_assignments_def)
  have rng: "\<forall>f\<in>set ?fs. \<forall>v\<in>set (variables f). \<forall>off.
               index_from_variable pose_metadata v = Some off \<longrightarrow>
               0 \<le> off \<and> off + int (get_parameter_dim (var_type v))
                            \<le> int (length (storage pose_assignments))"
    by (simp add: pose_defs pose_assignments_def)
  have nonvoid: "variables (hd ?fs) \<noteq> [] \<or> leaves (hd ?fs) \<noteq> []"
    by (simp add: pose_defs)
  have anon_r: "\<forall>f vals. factor_compute_residual_vector pose_kernels (anonymize_variables f) vals
                  = factor_compute_residual_vector pose_kernels f vals"
    by (simp add: pose_kernels_def)
  have anon_j: "\<forall>f vals. factor_compute_residual_jacobians pose_kernels (anonymize_variables f) vals
                  = factor_compute_residual_jacobians pose_kernels f vals"
    by (simp add: pose_kernels_def)
  obtain rs js where
    ir: "sequence_err (map (factor_residual pose_kernels pose_assignments) ?fs) = Inr rs"
    and cr: "compute_residual_vector pose_kernels stack pose_assignments = Inr rs"
    and ij: "sequence_err (map (factor_jacobians pose_kernels pose_assignments) ?fs) = Inr js"
    and cj: "compute_residual_jacobian pose_kernels stack pose_assignments
               = Inr (map (\<lambda>s. map (\<lambda>j. j ! s) js) [0..<length (hd js)])"
    using stacked_evaluation_equals_individual [OF mk smd rng nonvoid anon_r anon_j] by blast
  have ra: "factor_residual pose_kernels pose_assignments between_ab = Inr [10, 11]"
    by (simp add: factor_residual_def get_value_def py_slice_def pose_kernels_def
        pose_assignments_def pose_defs)
  have rb: "factor_residual pose_kernels pose_assignments between_bc = Inr [20, 21]"
    by (simp add: factor_residual_def get_value_def py_slice_def pose_kernels_def
        pose_assignments_def pose_defs)
  have ja: "factor_jacobians pose_kernels pose_assignments between_ab
              = Inr [[[-1, 0, 0], [0, -1, 0]], [[1, 0, 0], [0, 1, 0]]]"
    by (simp add: factor_jacobians_def get_value_def py_slice_def pose_kernels_def
        pose_assignments_def pose_defs)
  have jb: "factor_jacobians pose_kernels pose_assignments between_bc
              = Inr [[[-1, 0, 0], [0, -1, 0]], [[1, 0, 0], [0, 1, 0]]]"
    by (simp add: factor_jacobians_def get_value_def py_slice_def pose_kernels_def
        pose_assignments_def pose_defs)
  have rs: "rs = [[10, 11], [20, 21]]"
    using ir by (simp add: ra rb)
  have js: "js = [[[[-1, 0, 0], [0, -1, 0]], [[1, 0, 0], [0, 1, 0]]],
                  [[[-1, 0, 0], [0, -1, 0]], [[1, 0, 0], [0, 1, 0]]]]"
    using ij by (simp add: ja jb)
  have cj': "compute_residual_jacobian pose_kernels stack pose_assignments
         = Inr [[[[-1, 0, 0], [0, -1, 0]], [[-1, 0, 0], [0, -1, 0]]],
                [[[1, 0, 0], [0, 1, 0]], [[1, 0, 0], [0, 1, 0]]]]"
    unfolding cj js by (simp add: upt_rec_numeral)
  show ?thesis
    using mk ir cr cj' unfolding rs by blast
qed

end
